theory Spec2Isabelle
  imports Main
begin

section \<open>The ordered-collection node of mobx-state-tree (array.ts)\<close>

text \<open>
  A shallow embedding of \<^verbatim>\<open>src/types/complex-types/array.ts\<close>: the array type's
  interception hook \<^verbatim>\<open>willChange\<close>, its observation hook \<^verbatim>\<open>didChange\<close>,
  \<^verbatim>\<open>applyPatchLocally\<close>, \<^verbatim>\<open>applySnapshot\<close>, \<^verbatim>\<open>finalizeNewInstance\<close> and the two
  reconciliation functions \<^verbatim>\<open>reconcileUnkeyedArrayItems\<close> and \<^verbatim>\<open>reconcileArrayItems\<close>.

  The functions of array.ts are translated statement by statement. What they call but
  do not define (the node handle of the tree layer, the element type, the observable
  container of mobx) is either a field of the record \<open>env\<close>, when only its result
  matters, or an event appended to the log of the \<open>world\<close>, when the call is an
  effect. Each such part says so where it is introduced.
\<close>

subsection \<open>JavaScript values\<close>

text \<open>
  The values an array slot, a snapshot entry or a patch can hold (\<^verbatim>\<open>any\<close> in the
  source). Numbers are the integers (indices and counts are; fractions and the
  infinities are left out, and NaN appears only as the result of \<^verbatim>\<open>parseInt\<close>).
  \<open>Ref a\<close> is a reference to the object with identity \<open>a\<close>: a live node, or a plain
  snapshot object. \<open>Builtin n\<close> is an object of the JavaScript runtime itself: the one
  that \<^verbatim>\<open>Object.prototype\<close> holds under the name \<open>n\<close>, which every plain object
  inherits. HOL equality on \<open>jsval\<close> is then JavaScript's \<^verbatim>\<open>===\<close>: by value on
  primitives, by identity on objects.
\<close>

datatype jsval = Undefined | Null | Bool bool | Num int | Str string | Ref nat | Builtin string

text \<open>JavaScript's truthiness, used by \<^verbatim>\<open>!current[id]\<close> and \<^verbatim>\<open>existing && ...\<close>.\<close>

fun truthy :: "jsval \<Rightarrow> bool" where
  "truthy Undefined = False"
| "truthy Null = False"
| "truthy (Bool b) = b"
| "truthy (Num n) = (n \<noteq> 0)"
| "truthy (Str s) = (s \<noteq> [])"
| "truthy (Ref a) = True"
| "truthy (Builtin n) = True"

subsection \<open>Numbers and strings\<close>

text \<open>\<^verbatim>\<open>"" + i\<close> for an integer \<open>i\<close>: its decimal numeral, with a minus sign below zero.\<close>

definition digitChar :: "nat \<Rightarrow> char" where
  "digitChar d = ''0123456789'' ! d"

function natToString :: "nat \<Rightarrow> string" where
  "natToString n =
     (if n < 10 then [digitChar n] else natToString (n div 10) @ [digitChar (n mod 10)])"
  by pat_completeness auto
termination
  by (relation "measure (\<lambda>n. n)") auto

declare natToString.simps [simp del]

definition numToString :: "int \<Rightarrow> string" where
  "numToString i =
     (if i < 0 then CHR ''-'' # natToString (nat (- i)) else natToString (nat i))"

text \<open>
  \<^verbatim>\<open>parseInt(s)\<close> without a radix: leading white space is skipped, a sign is read, a
  prefix \<^verbatim>\<open>0x\<close> selects base 16, and the longest run of digits is the value. \<open>None\<close>
  is NaN (no digit could be read).
\<close>

definition isWhiteSpace :: "char \<Rightarrow> bool" where
  "isWhiteSpace c = (c \<in> set [CHR '' '', CHR 0x09, CHR 0x0A, CHR 0x0B, CHR 0x0C, CHR 0x0D])"

definition digitValue :: "char \<Rightarrow> nat option" where
  "digitValue c =
     (let n = (of_char c :: nat) in
      if 48 \<le> n \<and> n \<le> 57 then Some (n - 48)
      else if 97 \<le> n \<and> n \<le> 122 then Some (n - 87)
      else if 65 \<le> n \<and> n \<le> 90 then Some (n - 55)
      else None)"

fun parseDigits :: "nat \<Rightarrow> string \<Rightarrow> nat option \<Rightarrow> nat option" where
  "parseDigits radix [] acc = acc"
| "parseDigits radix (c # cs) acc =
     (case digitValue c of
        None \<Rightarrow> acc
      | Some d \<Rightarrow>
          if d < radix
          then parseDigits radix cs (Some ((case acc of None \<Rightarrow> 0 | Some a \<Rightarrow> a) * radix + d))
          else acc)"

definition parseSign :: "string \<Rightarrow> bool \<times> string" where
  "parseSign s =
     (case s of
        [] \<Rightarrow> (False, s)
      | c # cs \<Rightarrow>
          if c = CHR ''-'' then (True, cs)
          else if c = CHR ''+'' then (False, cs)
          else (False, s))"

definition parseRadix :: "string \<Rightarrow> nat \<times> string" where
  "parseRadix s =
     (case s of
        a # b # cs \<Rightarrow>
          if a = CHR ''0'' \<and> (b = CHR ''x'' \<or> b = CHR ''X'') then (16, cs) else (10, s)
      | _ \<Rightarrow> (10, s))"

definition parseInt :: "string \<Rightarrow> int option" where
  "parseInt s =
     (let (neg, s1) = parseSign (dropWhile isWhiteSpace s);
          (radix, s2) = parseRadix s1
      in case parseDigits radix s2 None of
           None \<Rightarrow> None
         | Some n \<Rightarrow> Some (if neg then - int n else int n))"

subsection \<open>Arrays\<close>

text \<open>\<^verbatim>\<open>xs[i]\<close>: \<^verbatim>\<open>undefined\<close> outside the array.\<close>

definition js_index :: "jsval list \<Rightarrow> int \<Rightarrow> jsval" where
  "js_index xs i = (if 0 \<le> i \<and> i < int (length xs) then xs ! nat i else Undefined)"

text \<open>
  \<^verbatim>\<open>xs.slice(start, end)\<close>: a negative bound counts from the end, and both bounds are
  clamped to the array. \<^verbatim>\<open>xs.slice(start)\<close> runs to the end of the array.
\<close>

definition sliceBound :: "int \<Rightarrow> int \<Rightarrow> int" where
  "sliceBound len k = (if k < 0 then max (len + k) 0 else min k len)"

definition js_slice :: "'a list \<Rightarrow> int \<Rightarrow> int \<Rightarrow> 'a list" where
  "js_slice xs start end' =
     (let len = int (length xs);
          k = sliceBound len start;
          final = sliceBound len end'
      in take (nat (final - k)) (drop (nat k) xs))"

definition js_slice_from :: "'a list \<Rightarrow> int \<Rightarrow> 'a list" where
  "js_slice_from xs start = js_slice xs start (int (length xs))"

subsection \<open>Patches, changes, events and the world\<close>

text \<open>\<^verbatim>\<open>IJsonPatch\<close>: \<^verbatim>\<open>{op, path, value?}\<close>. A patch without a value has \<open>val = None\<close>.\<close>

record patch =
  op :: string
  path :: string
  val :: "jsval option"

text \<open>\<^verbatim>\<open>patch.value\<close>: \<^verbatim>\<open>undefined\<close> when the patch has none.\<close>

definition patchValue :: "patch \<Rightarrow> jsval" where
  "patchValue p = (case val p of None \<Rightarrow> Undefined | Some v \<Rightarrow> v)"

text \<open>
  The change handed to the interception hook (\<^verbatim>\<open>IArrayWillChange | IArrayWillSplice\<close>)
  and the one handed to the observation hook (\<^verbatim>\<open>IArrayChange | IArraySplice\<close>).
\<close>

datatype will_change =
    WillUpdate (change_index: int) (change_newValue: jsval)
  | WillSplice (change_index: int) (change_added: "jsval list") (change_removedCount: int)

datatype did_change =
    DidUpdate int jsval
  | DidSplice int "jsval list" int int

text \<open>
  The calls that array.ts makes into the tree layer, in the order they are made. The
  node handle is the handle of the collection itself throughout, so it is not recorded.
  \<^item> \<open>AssertWritable\<close>: \<^verbatim>\<open>node.assertWritable()\<close>;
  \<^item> \<open>PrepareChild p v r x\<close>: \<^verbatim>\<open>node.prepareChild(p, v, r)\<close> returned \<open>x\<close>;
  \<^item> \<open>SetParent c None\<close>: \<^verbatim>\<open>adm.setParent(null)\<close> on the handle of \<open>c\<close>;
    \<open>SetParent c (Some p)\<close>: \<^verbatim>\<open>adm.setParent(node, p)\<close>;
  \<^item> \<open>EmitPatch p\<close>: \<^verbatim>\<open>node.emitPatch(p, node)\<close>;
  \<^item> \<open>ApplySnapshot c s\<close>: \<^verbatim>\<open>applySnapshot(c, s)\<close> of the core;
  \<^item> \<open>Create s x\<close>: \<^verbatim>\<open>factory.create(s)\<close> returned \<open>x\<close>.
\<close>

datatype event =
    AssertWritable
  | PrepareChild string jsval bool jsval
  | SetParent jsval "string option"
  | EmitPatch patch
  | ApplySnapshot jsval jsval
  | Create jsval jsval

text \<open>
  The state the functions run in: the content of the observable array
  (\<^verbatim>\<open>node.target\<close>), the log of calls into the tree layer, and whether the two hooks
  have been registered on the array (\<^verbatim>\<open>intercept\<close>, \<^verbatim>\<open>observe\<close>).
\<close>

record world =
  target :: "jsval list"
  events :: "event list"
  intercepted :: bool
  observed :: bool

datatype error = NotWritable | NotUnique string | TypeError | OutOfBounds

text \<open>
  The collaborators of array.ts whose results it uses and whose code is not part of
  the sources. Results that can differ from call to call (a fresh node has a fresh
  identity) may depend on the world, which holds the whole history of calls.
  \<^item> \<open>isMST v\<close>: \<open>v\<close> is a node of the tree (\<^verbatim>\<open>maybeMST\<close> runs its callback);
  \<^item> \<open>writable w\<close>: \<^verbatim>\<open>node.assertWritable()\<close> passes;
  \<^item> \<open>prepareChildResult w p v r\<close>: what \<^verbatim>\<open>node.prepareChild(p, v, r)\<close> returns;
  \<^item> \<open>valueToSnapshot v\<close>: the snapshot of \<open>v\<close>;
  \<^item> \<open>getProp v a\<close>: \<^verbatim>\<open>v[a]\<close> for a \<open>v\<close> that is neither \<^verbatim>\<open>null\<close> nor \<^verbatim>\<open>undefined\<close>;
  \<^item> \<open>typeIs c s\<close>: \<^verbatim>\<open>getType(c).is(s)\<close>;
  \<^item> \<open>createResult w s\<close>: what \<^verbatim>\<open>factory.create(s)\<close> returns;
  \<^item> \<open>identifierAttribute\<close>: \<^verbatim>\<open>getIdentifierAttribute(this.subType)\<close>, \<open>None\<close> for \<^verbatim>\<open>null\<close>;
  \<^item> \<open>assignAtNaN v w\<close> and \<open>spliceAtNaN deleteCount newItems w\<close>: what the
    observable array does with \<^verbatim>\<open>target[NaN] = v\<close> and with \<^verbatim>\<open>target.splice(NaN,
    deleteCount, ...newItems)\<close>. An index that is NaN is outside the integers of this
    model and outside the wire format of the spec ("path is a decimal index string or
    -"), so the outcome is left to the collaborator, whatever it is.
\<close>

record env =
  isMST :: "jsval \<Rightarrow> bool"
  writable :: "world \<Rightarrow> bool"
  prepareChildResult :: "world \<Rightarrow> string \<Rightarrow> jsval \<Rightarrow> bool \<Rightarrow> jsval"
  valueToSnapshot :: "jsval \<Rightarrow> jsval"
  getProp :: "jsval \<Rightarrow> string \<Rightarrow> jsval"
  typeIs :: "jsval \<Rightarrow> jsval \<Rightarrow> bool"
  createResult :: "world \<Rightarrow> jsval \<Rightarrow> jsval"
  identifierAttribute :: "string option"
  assignAtNaN :: "jsval \<Rightarrow> world \<Rightarrow> (error + unit) \<times> world"
  spliceAtNaN :: "int \<Rightarrow> jsval list \<Rightarrow> world \<Rightarrow> (error + unit) \<times> world"

definition logEvent :: "event \<Rightarrow> world \<Rightarrow> world" where
  "logEvent e w = w\<lparr>events := events w @ [e]\<rparr>"

subsection \<open>The node handle\<close>

text \<open>
  The node handle of the tree layer (\<^verbatim>\<open>MSTAdminisration\<close>, in \<^verbatim>\<open>core\<close>) and the helpers
  of the core are not part of the sources. The spec lists the handle as a consumed
  interface. Each call is appended to the log; what the call does inside the tree layer
  is not modelled, and it is taken to return and to leave the content of the array
  alone.
\<close>

text \<open>
  Modelled from the spec: \<^verbatim>\<open>node.assertWritable()\<close>, "fails with a not-writable
  condition".
\<close>

definition assertWritable :: "env \<Rightarrow> world \<Rightarrow> (error + unit) \<times> world" where
  "assertWritable env w =
     (if writable env w then Inr () else Inl NotWritable, logEvent AssertWritable w)"

text \<open>
  Modelled from the spec: \<^verbatim>\<open>node.prepareChild(path, rawValue, reconcileExisting = true)
  -> value\<close>. The value returned is the collaborator's.
\<close>

definition prepareChild :: "env \<Rightarrow> string \<Rightarrow> jsval \<Rightarrow> bool \<Rightarrow> world \<Rightarrow> jsval \<times> world" where
  "prepareChild env p v r w =
     (let x = prepareChildResult env w p v r in (x, logEvent (PrepareChild p v r x) w))"

text \<open>
  Modelled from the spec: \<^verbatim>\<open>adm.setParent(ownerOrNull, path?)\<close> on the handle of the
  child \<open>c\<close>; \<open>None\<close> stands for \<^verbatim>\<open>setParent(null)\<close>, \<open>Some p\<close> for
  \<^verbatim>\<open>setParent(node, p)\<close>.
\<close>

definition setParent :: "jsval \<Rightarrow> string option \<Rightarrow> world \<Rightarrow> world" where
  "setParent c p w = logEvent (SetParent c p) w"

text \<open>Modelled from the spec: \<^verbatim>\<open>node.emitPatch(patch, sourceNode)\<close>.\<close>

definition emitPatch :: "patch \<Rightarrow> world \<Rightarrow> world" where
  "emitPatch p w = logEvent (EmitPatch p) w"

text \<open>
  Modelled from the spec: \<^verbatim>\<open>maybeMST(value, fn)\<close> of the core runs \<^verbatim>\<open>fn\<close> on the handle
  of \<open>value\<close> when \<open>value\<close> is a node ("any of them that are nodes", "each such
  element that is a node") and does nothing otherwise.
\<close>

definition maybeMST :: "env \<Rightarrow> jsval \<Rightarrow> (world \<Rightarrow> world) \<Rightarrow> world \<Rightarrow> world" where
  "maybeMST env v f w = (if isMST env v then f w else w)"

text \<open>
  Modelled from the spec: \<^verbatim>\<open>factory.create(item)\<close> of the element type, "construct a
  brand-new child from the raw value via the element type's create". The child
  returned is the collaborator's.
\<close>

definition create :: "env \<Rightarrow> jsval \<Rightarrow> world \<Rightarrow> jsval \<times> world" where
  "create env item w = (let x = createResult env w item in (x, logEvent (Create item x) w))"

text \<open>
  Modelled from the spec: \<^verbatim>\<open>applySnapshot(existing, item)\<close> of the core, "apply the
  snapshot onto the existing child in place".
\<close>

definition coreApplySnapshot :: "jsval \<Rightarrow> jsval \<Rightarrow> world \<Rightarrow> world" where
  "coreApplySnapshot existing item w = logEvent (ApplySnapshot existing item) w"

subsection \<open>reconcileUnkeyedArrayItems\<close>

text \<open>
  \<^verbatim>\<open>target.slice(index + reconcilableCount, index + removedCount).forEach(oldValue =>
  { maybeMST(oldValue, adm => adm.setParent(null)) })\<close>: the loop over the slice.
\<close>

fun detachEach :: "env \<Rightarrow> jsval list \<Rightarrow> world \<Rightarrow> world" where
  "detachEach env [] w = w"
| "detachEach env (oldValue # rest) w =
     detachEach env rest (maybeMST env oldValue (setParent oldValue None) w)"

text \<open>
  \<^verbatim>\<open>target.slice(index + removedCount).forEach((oldValue, idx) => { maybeMST(oldValue,
  adm => adm.setParent(node, "" + (index + removedCount + idx + delta))) })\<close>: the loop
  over the slice, \<open>idx\<close> counting from 0.
\<close>

fun reindexEach :: "env \<Rightarrow> int \<Rightarrow> int \<Rightarrow> int \<Rightarrow> int \<Rightarrow> jsval list \<Rightarrow> world \<Rightarrow> world" where
  "reindexEach env index removedCount delta idx [] w = w"
| "reindexEach env index removedCount delta idx (oldValue # rest) w =
     reindexEach env index removedCount delta (idx + 1) rest
       (maybeMST env oldValue
          (setParent oldValue (Some (numToString (index + removedCount + idx + delta)))) w)"

text \<open>
  \<^verbatim>\<open>added.slice(0, reconcilableCount).map((newValue, pos) => node.prepareChild("" +
  (index + pos), newValue))\<close>: the third argument of \<^verbatim>\<open>prepareChild\<close> is left to its
  default, \<^verbatim>\<open>true\<close>.
\<close>

fun reconcileEach :: "env \<Rightarrow> int \<Rightarrow> int \<Rightarrow> jsval list \<Rightarrow> world \<Rightarrow> jsval list \<times> world" where
  "reconcileEach env index pos [] w = ([], w)"
| "reconcileEach env index pos (newValue # rest) w =
     (let (x, w1) = prepareChild env (numToString (index + pos)) newValue True w;
          (xs, w2) = reconcileEach env index (pos + 1) rest w1
      in (x # xs, w2))"

text \<open>
  \<^verbatim>\<open>added.slice(reconcilableCount).map((newValue, pos) => node.prepareChild("" + (index
  + pos + reconcilableCount), newValue, false))\<close>.
\<close>

fun createEach :: "env \<Rightarrow> int \<Rightarrow> int \<Rightarrow> int \<Rightarrow> jsval list \<Rightarrow> world \<Rightarrow> jsval list \<times> world" where
  "createEach env index reconcilableCount pos [] w = ([], w)"
| "createEach env index reconcilableCount pos (newValue # rest) w =
     (let (x, w1) = prepareChild env (numToString (index + pos + reconcilableCount)) newValue False w;
          (xs, w2) = createEach env index reconcilableCount (pos + 1) rest w1
      in (x # xs, w2))"

definition reconcileUnkeyedArrayItems ::
  "env \<Rightarrow> jsval list \<Rightarrow> int \<Rightarrow> jsval list \<Rightarrow> int \<Rightarrow> world \<Rightarrow> jsval list \<times> world" where
  "reconcileUnkeyedArrayItems env tgt index added removedCount w =
     (let reconcilableCount = min removedCount (int (length added));
          w1 = (if removedCount > reconcilableCount
                then detachEach env
                       (js_slice tgt (index + reconcilableCount) (index + removedCount)) w
                else w);
          delta = int (length added) - removedCount;
          w2 = reindexEach env index removedCount delta 0
                 (js_slice_from tgt (index + removedCount)) w1;
          (reconciled, w3) =
             reconcileEach env index 0 (js_slice added 0 reconcilableCount) w2;
          (created, w4) =
             createEach env index reconcilableCount 0 (js_slice_from added reconcilableCount) w3
      in (reconciled @ created, w4))"

subsection \<open>The hooks: willChange and didChange\<close>

text \<open>
  \<^verbatim>\<open>willChange\<close> returns \<open>Inl e\<close> when it throws, \<open>Inr None\<close> for \<^verbatim>\<open>null\<close> and
  \<open>Inr (Some change)\<close> for the change it hands back.
\<close>

definition willChange :: "env \<Rightarrow> will_change \<Rightarrow> world \<Rightarrow> (error + will_change option) \<times> world" where
  "willChange env change w =
     (case assertWritable env w of
        (Inl e, w1) \<Rightarrow> (Inl e, w1)
      | (Inr _, w1) \<Rightarrow>
          (case change of
             WillUpdate i newValue \<Rightarrow>
               (let oldValue = js_index (target w1) i in
                if newValue = oldValue then (Inr None, w1)
                else (let (x, w2) = prepareChild env (numToString i) newValue True w1
                      in (Inr (Some (WillUpdate i x)), w2)))
           | WillSplice i added removedCount \<Rightarrow>
               (let (xs, w2) = reconcileUnkeyedArrayItems env (target w1) i added removedCount w1
                in (Inr (Some (WillSplice i xs removedCount)), w2))))"

text \<open>
  The first loop of the splice case of \<^verbatim>\<open>didChange\<close>:
  \<^verbatim>\<open>for (let i = change.index + change.removedCount - 1; i >= change.index; i--)\<close>.
\<close>

function emitRemoves :: "int \<Rightarrow> int \<Rightarrow> world \<Rightarrow> world" where
  "emitRemoves index i w =
     (if i \<ge> index
      then emitRemoves index (i - 1)
             (emitPatch \<lparr>op = ''remove'', path = numToString i, val = None\<rparr> w)
      else w)"
  by pat_completeness auto
termination
  by (relation "measure (\<lambda>(index, i, w). nat (i - index + 1))") auto

declare emitRemoves.simps [simp del]

text \<open>The second loop: \<^verbatim>\<open>for (let i = 0; i < change.addedCount; i++)\<close>.\<close>

function emitAdds :: "env \<Rightarrow> int \<Rightarrow> jsval list \<Rightarrow> int \<Rightarrow> int \<Rightarrow> world \<Rightarrow> world" where
  "emitAdds env index added addedCount i w =
     (if i < addedCount
      then emitAdds env index added addedCount (i + 1)
             (emitPatch \<lparr>op = ''add'', path = numToString (index + i),
                         val = Some (valueToSnapshot env (js_index added i))\<rparr> w)
      else w)"
  by pat_completeness auto
termination
  by (relation "measure (\<lambda>(env, index, added, addedCount, i, w). nat (addedCount - i))") auto

declare emitAdds.simps [simp del]

text \<open>\<open>DidUpdate index newValue\<close>; \<open>DidSplice index added addedCount removedCount\<close>.\<close>

fun didChange :: "env \<Rightarrow> did_change \<Rightarrow> world \<Rightarrow> world" where
  "didChange env (DidUpdate i newValue) w =
     emitPatch \<lparr>op = ''replace'', path = numToString i,
                 val = Some (valueToSnapshot env newValue)\<rparr> w"
| "didChange env (DidSplice i added addedCount removedCount) w =
     emitAdds env i added addedCount 0 (emitRemoves i (i + removedCount - 1) w)"

subsection \<open>The observable array\<close>

text \<open>
  The observable array is mobx's and not part of the sources. Its write path is taken
  from the spec: "a structural edit (insert/remove/replace at index) arrives, the
  interception hook runs synchronously before the edit is committed, commit happens, a
  post-commit observation hook translates the now-committed edit"; the interception
  hook has "authority to transform or veto the edit", and a "null/veto signal" means
  "no commit or patch occurs". A hook runs once it has been registered on the array.
\<close>

text \<open>
  Modelled from the spec: the commit of a splice, "removing a contiguous run of
  elements at an index and inserting a new contiguous run in their place".
\<close>

definition spliceItemsIntoValues :: "jsval list \<Rightarrow> int \<Rightarrow> int \<Rightarrow> jsval list \<Rightarrow> jsval list" where
  "spliceItemsIntoValues xs i r newItems = take (nat i) xs @ newItems @ drop (nat (i + r)) xs"

text \<open>
  Modelled from the spec: the interception hook registered by \<^verbatim>\<open>intercept\<close> runs
  before the commit; without one the edit goes ahead as it is.
\<close>

definition interceptChange :: "env \<Rightarrow> will_change \<Rightarrow> world \<Rightarrow> (error + will_change option) \<times> world" where
  "interceptChange env change w =
     (if intercepted w then willChange env change w else (Inr (Some change), w))"

text \<open>
  Modelled from the spec: the observation hook registered by \<^verbatim>\<open>observe\<close> runs after
  the commit.
\<close>

definition notifyChange :: "env \<Rightarrow> did_change \<Rightarrow> world \<Rightarrow> world" where
  "notifyChange env change w = (if observed w then didChange env change w else w)"

text \<open>
  Modelled from the spec: \<^verbatim>\<open>target.splice(index, deleteCount, ...newItems)\<close>. The index
  and the count are brought into range as \<^verbatim>\<open>Array.prototype.splice\<close> does; then
  interception, commit of the change the hook handed back, observation.
\<close>

definition arraySplice :: "env \<Rightarrow> int \<Rightarrow> int \<Rightarrow> jsval list \<Rightarrow> world \<Rightarrow> (error + unit) \<times> world" where
  "arraySplice env index deleteCount newItems w =
     (let len = int (length (target w));
          i = (if index > len then len else if index < 0 then max 0 (len + index) else index);
          r = max 0 (min deleteCount (len - i))
      in case interceptChange env (WillSplice i newItems r) w of
           (Inl e, w1) \<Rightarrow> (Inl e, w1)
         | (Inr None, w1) \<Rightarrow> (Inr (), w1)
         | (Inr (Some change), w1) \<Rightarrow>
             (let i' = change_index change;
                  r' = change_removedCount change;
                  xs = change_added change;
                  w2 = w1\<lparr>target := spliceItemsIntoValues (target w1) i' r' xs\<rparr>
              in (Inr (), notifyChange env (DidSplice i' xs (int (length xs)) r') w2)))"

text \<open>
  Modelled from the spec: \<^verbatim>\<open>target[index] = v\<close>. Within the array it is a single-slot
  update: interception, commit of the value the hook handed back, observation. On the
  slot just after the last one it appends ("container length, for append position").
  A write anywhere else is not described by the spec and is reported as
  \<open>OutOfBounds\<close>.
\<close>

definition arraySet :: "env \<Rightarrow> int \<Rightarrow> jsval \<Rightarrow> world \<Rightarrow> (error + unit) \<times> world" where
  "arraySet env index v w =
     (let len = int (length (target w)) in
      if 0 \<le> index \<and> index < len then
        (case interceptChange env (WillUpdate index v) w of
           (Inl e, w1) \<Rightarrow> (Inl e, w1)
         | (Inr None, w1) \<Rightarrow> (Inr (), w1)
         | (Inr (Some change), w1) \<Rightarrow>
             (let x = change_newValue change;
                  w2 = w1\<lparr>target := (target w1)[nat index := x]\<rparr>
              in (Inr (), notifyChange env (DidUpdate index x) w2)))
      else if index = len then arraySplice env index 0 [v] w
      else (Inl OutOfBounds, w))"

text \<open>
  Modelled from the spec: \<^verbatim>\<open>target.replace(newItems)\<close>, "replace the entire container
  content with the resulting ordered sequence in one commit (this still flows through
  4.2/4.4)": one splice that removes everything.
\<close>

definition arrayReplace :: "env \<Rightarrow> jsval list \<Rightarrow> world \<Rightarrow> (error + unit) \<times> world" where
  "arrayReplace env newItems w = arraySplice env 0 (int (length (target w))) newItems w"

text \<open>
  Modelled from the spec: \<^verbatim>\<open>target[index] = v\<close> and \<^verbatim>\<open>target.splice(index, deleteCount,
  ...newItems)\<close> for an index that is a JavaScript number: an integer, or NaN
  (\<open>None\<close>), for which the outcome is the collaborator's.
\<close>

definition targetAssign :: "env \<Rightarrow> int option \<Rightarrow> jsval \<Rightarrow> world \<Rightarrow> (error + unit) \<times> world" where
  "targetAssign env index v w =
     (case index of None \<Rightarrow> assignAtNaN env v w | Some i \<Rightarrow> arraySet env i v w)"

definition targetSplice ::
  "env \<Rightarrow> int option \<Rightarrow> int \<Rightarrow> jsval list \<Rightarrow> world \<Rightarrow> (error + unit) \<times> world" where
  "targetSplice env index deleteCount newItems w =
     (case index of
        None \<Rightarrow> spliceAtNaN env deleteCount newItems w
      | Some i \<Rightarrow> arraySplice env i deleteCount newItems w)"

subsection \<open>applyPatchLocally\<close>

text \<open>
  \<^verbatim>\<open>const index = subpath === "-" ? target.length : parseInt(subpath)\<close>, then the switch
  on \<^verbatim>\<open>patch.op\<close>, which has no default case: \<^verbatim>\<open>target[index] = patch.value\<close>,
  \<^verbatim>\<open>target.splice(index, 0, patch.value)\<close>, \<^verbatim>\<open>target.splice(index, 1)\<close>.
\<close>

definition applyPatchLocally :: "env \<Rightarrow> string \<Rightarrow> patch \<Rightarrow> world \<Rightarrow> (error + unit) \<times> world" where
  "applyPatchLocally env subpath p w =
     (let index = (if subpath = ''-'' then Some (int (length (target w))) else parseInt subpath) in
      if op p = ''replace'' then targetAssign env index (patchValue p) w
      else if op p = ''add'' then targetSplice env index 0 [patchValue p] w
      else if op p = ''remove'' then targetSplice env index 1 [] w
      else (Inr (), w))"

subsection \<open>reconcileArrayItems and applySnapshot\<close>

text \<open>
  A value used as a property name (\<^verbatim>\<open>current[id]\<close>) is converted to a string. An object
  used as a name is taken to print as a plain object does, and a function of the
  runtime as the engine prints a native function.
\<close>

definition toPropertyKey :: "jsval \<Rightarrow> string" where
  "toPropertyKey v =
     (case v of
        Undefined \<Rightarrow> ''undefined''
      | Null \<Rightarrow> ''null''
      | Bool b \<Rightarrow> (if b then ''true'' else ''false'')
      | Num n \<Rightarrow> numToString n
      | Str s \<Rightarrow> s
      | Ref a \<Rightarrow> ''[object Object]''
      | Builtin n \<Rightarrow>
          if n = ''__proto__'' then ''[object Object]''
          else ''function '' @ (if n = ''constructor'' then ''Object'' else n)
                 @ ''() { [native code] }'')"

text \<open>\<^verbatim>\<open>item[identifierAttr]\<close>: a TypeError on \<^verbatim>\<open>null\<close> and \<^verbatim>\<open>undefined\<close>.\<close>

definition readProp :: "env \<Rightarrow> jsval \<Rightarrow> string \<Rightarrow> error + jsval" where
  "readProp env item a =
     (if item = Undefined \<or> item = Null then Inl TypeError else Inr (getProp env item a))"

text \<open>
  The object \<^verbatim>\<open>current\<close> starts as \<^verbatim>\<open>{}\<close>: it has no property of its own, and it
  inherits those of \<^verbatim>\<open>Object.prototype\<close>, whose names these are. The value under each
  is a function, or \<^verbatim>\<open>Object.prototype\<close> itself under \<^verbatim>\<open>__proto__\<close>.
\<close>

definition objectPrototypeNames :: "string list" where
  "objectPrototypeNames =
     [''constructor'', ''toString'', ''toLocaleString'', ''valueOf'', ''hasOwnProperty'',
      ''isPrototypeOf'', ''propertyIsEnumerable'', ''__proto__'', ''__defineGetter__'',
      ''__defineSetter__'', ''__lookupGetter__'', ''__lookupSetter__'']"

text \<open>
  \<^verbatim>\<open>current[id]\<close>: the property of its own that \<^verbatim>\<open>current\<close> holds under the name, else
  the one it inherits, else \<^verbatim>\<open>undefined\<close>. The map \<open>current\<close> holds the properties the
  loop has stored.
\<close>

definition lookupCurrent :: "(string \<rightharpoonup> jsval) \<Rightarrow> string \<Rightarrow> jsval" where
  "lookupCurrent current k =
     (case current k of
        Some v \<Rightarrow> v
      | None \<Rightarrow> if k \<in> set objectPrototypeNames then Builtin k else Undefined)"

text \<open>
  The identifier of an element as \<^verbatim>\<open>reconcileArrayItems\<close> uses it: the value of the
  identifier attribute, as a property name. (Two identifier values are the same to the
  lookup when they are the same name: the number 1 and the string \<^verbatim>\<open>"1"\<close> are.)
\<close>

definition identifierOf :: "env \<Rightarrow> string \<Rightarrow> jsval \<Rightarrow> string" where
  "identifierOf env a item = toPropertyKey (getProp env item a)"

text \<open>
  The first loop: \<^verbatim>\<open>target.forEach(item => { const id = item[identifierAttr];
  invariant(!current[id], ...); current[id] = item })\<close>. A failed \<^verbatim>\<open>invariant\<close> throws;
  its second argument is the message, which names the identifier.
\<close>

fun collectCurrent ::
  "env \<Rightarrow> string \<Rightarrow> jsval list \<Rightarrow> (string \<rightharpoonup> jsval) \<Rightarrow> error + (string \<rightharpoonup> jsval)" where
  "collectCurrent env identifierAttr [] current = Inr current"
| "collectCurrent env identifierAttr (item # rest) current =
     (case readProp env item identifierAttr of
        Inl e \<Rightarrow> Inl e
      | Inr idv \<Rightarrow>
          (let id = toPropertyKey idv in
           if truthy (lookupCurrent current id) then Inl (NotUnique id)
           else collectCurrent env identifierAttr rest (current(id \<mapsto> item))))"

text \<open>
  The second loop: \<^verbatim>\<open>snapshot.map(item => { const existing =
  current[item[identifierAttr]]; if (existing && getType(existing).is(item)) {
  applySnapshot(existing, item); return existing } else { return factory.create(item)
  } })\<close>. What \<^verbatim>\<open>current\<close> holds under the identifier is a child, or a property it
  inherits: \<^verbatim>\<open>getType\<close> is then called on an object of the runtime, and the answer is
  the collaborator's (\<open>typeIs\<close>) there too.
\<close>

fun reconcileItems ::
  "env \<Rightarrow> string \<Rightarrow> (string \<rightharpoonup> jsval) \<Rightarrow> jsval list \<Rightarrow> world \<Rightarrow> (error + jsval list) \<times> world" where
  "reconcileItems env identifierAttr current [] w = (Inr [], w)"
| "reconcileItems env identifierAttr current (item # rest) w =
     (case readProp env item identifierAttr of
        Inl e \<Rightarrow> (Inl e, w)
      | Inr idv \<Rightarrow>
          (let existing = lookupCurrent current (toPropertyKey idv);
               (x, w1) = (if truthy existing \<and> typeIs env existing item
                          then (existing, coreApplySnapshot existing item w)
                          else create env item w)
           in case reconcileItems env identifierAttr current rest w1 of
                (Inl e, w2) \<Rightarrow> (Inl e, w2)
              | (Inr xs, w2) \<Rightarrow> (Inr (x # xs), w2)))"

definition reconcileArrayItems ::
  "env \<Rightarrow> string \<Rightarrow> jsval list \<Rightarrow> jsval list \<Rightarrow> world \<Rightarrow> (error + jsval list) \<times> world" where
  "reconcileArrayItems env identifierAttr tgt snapshot w =
     (case collectCurrent env identifierAttr tgt Map.empty of
        Inl e \<Rightarrow> (Inl e, w)
      | Inr current \<Rightarrow> reconcileItems env identifierAttr current snapshot w)"

text \<open>
  \<^verbatim>\<open>applySnapshot(node, snapshot)\<close>: \<^verbatim>\<open>if (identifierAttr)\<close> is false for \<^verbatim>\<open>null\<close> and for
  the empty string.
\<close>

definition applySnapshot :: "env \<Rightarrow> jsval list \<Rightarrow> world \<Rightarrow> (error + unit) \<times> world" where
  "applySnapshot env snapshot w =
     (case identifierAttribute env of
        None \<Rightarrow> arrayReplace env snapshot w
      | Some a \<Rightarrow>
          if a = [] then arrayReplace env snapshot w
          else (case reconcileArrayItems env a (target w) snapshot w of
                  (Inl e, w1) \<Rightarrow> (Inl e, w1)
                | (Inr items, w1) \<Rightarrow> arrayReplace env items w1))"

subsection \<open>Creating an instance\<close>

text \<open>\<^verbatim>\<open>createNewInstance()\<close>: a fresh, empty observable array with no hook on it.\<close>

definition createNewInstance :: world where
  "createNewInstance = \<lparr>target = [], events = [], intercepted = False, observed = False\<rparr>"

text \<open>
  Modelled from the spec: \<^verbatim>\<open>getMSTAdministration(instance).applySnapshot(snapshot)\<close>,
  the \<^verbatim>\<open>applySnapshot\<close> of the node handle, whose code is not part of the sources.
  "hydrate(container, snapshot) applies the identity-based reconciliation algorithm
  (4.3) to populate the container from snapshot": the handle passes the snapshot to
  \<^verbatim>\<open>applySnapshot\<close> of the node's type.
\<close>

definition nodeApplySnapshot :: "env \<Rightarrow> jsval list \<Rightarrow> world \<Rightarrow> (error + unit) \<times> world" where
  "nodeApplySnapshot env snapshot w = applySnapshot env snapshot w"

text \<open>
  \<^verbatim>\<open>finalizeNewInstance(instance, snapshot)\<close>: \<^verbatim>\<open>intercept(instance, this.willChange)\<close>,
  \<^verbatim>\<open>observe(instance, this.didChange)\<close>, then
  \<^verbatim>\<open>getMSTAdministration(instance).applySnapshot(snapshot)\<close>.
\<close>

definition finalizeNewInstance :: "env \<Rightarrow> jsval list \<Rightarrow> world \<Rightarrow> (error + unit) \<times> world" where
  "finalizeNewInstance env snapshot w =
     (let w1 = w\<lparr>intercepted := True\<rparr>;
          w2 = w1\<lparr>observed := True\<rparr>
      in nodeApplySnapshot env snapshot w2)"

subsection \<open>Reading the log\<close>

text \<open>The events a run appended, and the calls of each kind among them, in order.\<close>

definition newEvents :: "world \<Rightarrow> world \<Rightarrow> event list" where
  "newEvents w w' = drop (length (events w)) (events w')"

definition emitted :: "event list \<Rightarrow> patch list" where
  "emitted es = concat (map (\<lambda>e. case e of EmitPatch p \<Rightarrow> [p] | _ \<Rightarrow> []) es)"

definition detached :: "event list \<Rightarrow> jsval list" where
  "detached es = concat (map (\<lambda>e. case e of SetParent c None \<Rightarrow> [c] | _ \<Rightarrow> []) es)"

definition reparented :: "event list \<Rightarrow> (jsval \<times> string) list" where
  "reparented es = concat (map (\<lambda>e. case e of SetParent c (Some p) \<Rightarrow> [(c, p)] | _ \<Rightarrow> []) es)"

definition prepared :: "event list \<Rightarrow> (string \<times> jsval \<times> bool) list" where
  "prepared es = concat (map (\<lambda>e. case e of PrepareChild p v r x \<Rightarrow> [(p, v, r)] | _ \<Rightarrow> []) es)"

definition preparedResults :: "event list \<Rightarrow> jsval list" where
  "preparedResults es = concat (map (\<lambda>e. case e of PrepareChild p v r x \<Rightarrow> [x] | _ \<Rightarrow> []) es)"

definition reconciledCalls :: "event list \<Rightarrow> event list" where
  "reconciledCalls es =
     filter (\<lambda>e. case e of ApplySnapshot c s \<Rightarrow> True | Create s x \<Rightarrow> True | _ \<Rightarrow> False) es"

subsection \<open>Example collaborators\<close>

text \<open>
  A collection of scalars: no element is a node, \<^verbatim>\<open>prepareChild\<close> hands a value back
  as it is, a value is its own snapshot, the node is writable and the element type has
  no identifier attribute. The examples apply no patch whose path fails to parse, so
  the two functions for an index that is NaN are never evaluated on them; they are
  given a value only to make the record complete.
\<close>

definition scalarEnv :: env where
  "scalarEnv =
     \<lparr>isMST = (\<lambda>v. False),
      writable = (\<lambda>w. True),
      prepareChildResult = (\<lambda>w p v r. v),
      valueToSnapshot = (\<lambda>v. v),
      getProp = (\<lambda>v a. Undefined),
      typeIs = (\<lambda>c s. True),
      createResult = (\<lambda>w s. s),
      identifierAttribute = None,
      assignAtNaN = (\<lambda>v w. (Inr (), w)),
      spliceAtNaN = (\<lambda>r xs w. (Inr (), w))\<rparr>"

text \<open>
  A collection of objects identified by \<^verbatim>\<open>id\<close>. \<open>exampleHeap\<close> lists the properties
  of the objects: 1 and 2 are the children \<^verbatim>\<open>{id: 1, v: "a"}\<close> and \<^verbatim>\<open>{id: 2, v: "b"}\<close>
  of the container, 3 and 4 the snapshot entries \<^verbatim>\<open>{id: 2, v: "B"}\<close> and
  \<^verbatim>\<open>{id: 3, v: "c"}\<close>, 5 and 6 two snapshot entries with the same \<^verbatim>\<open>id\<close>, 7. Object 7
  is the snapshot entry \<^verbatim>\<open>{id: 1, v: 42}\<close>, and object 8 is \<^verbatim>\<open>{id: "constructor"}\<close>. Every
  object is a node to \<^verbatim>\<open>maybeMST\<close>; \<^verbatim>\<open>create\<close> and \<^verbatim>\<open>prepareChild\<close> of a raw value
  return an object whose identity is fresh (100 plus the number of calls so far).
\<close>

definition exampleHeap :: "(nat \<times> (string \<times> jsval) list) list" where
  "exampleHeap =
     [(1, [(''id'', Num 1), (''v'', Str ''a'')]),
      (2, [(''id'', Num 2), (''v'', Str ''b'')]),
      (3, [(''id'', Num 2), (''v'', Str ''B'')]),
      (4, [(''id'', Num 3), (''v'', Str ''c'')]),
      (5, [(''id'', Num 7)]),
      (6, [(''id'', Num 7)]),
      (7, [(''id'', Num 1), (''v'', Num 42)]),
      (8, [(''id'', Str ''constructor'')])]"

definition exampleProp :: "jsval \<Rightarrow> string \<Rightarrow> jsval" where
  "exampleProp v a =
     (case v of
        Ref n \<Rightarrow>
          (case map_of exampleHeap n of
             None \<Rightarrow> Undefined
           | Some ps \<Rightarrow> (case map_of ps a of None \<Rightarrow> Undefined | Some x \<Rightarrow> x))
      | _ \<Rightarrow> Undefined)"

definition isRef :: "jsval \<Rightarrow> bool" where
  "isRef v = (case v of Ref n \<Rightarrow> True | _ \<Rightarrow> False)"

definition keyedEnv :: env where
  "keyedEnv =
     \<lparr>isMST = isRef,
      writable = (\<lambda>w. True),
      prepareChildResult = (\<lambda>w p v r. if isRef v then v else Ref (100 + length (events w))),
      valueToSnapshot = (\<lambda>v. v),
      getProp = exampleProp,
      typeIs = (\<lambda>c s. True),
      createResult = (\<lambda>w s. Ref (100 + length (events w))),
      identifierAttribute = Some ''id'',
      assignAtNaN = (\<lambda>v w. (Inr (), w)),
      spliceAtNaN = (\<lambda>r xs w. (Inr (), w))\<rparr>"

text \<open>
  The same collection when the type of a child accepts a snapshot entry only if its
  \<^verbatim>\<open>v\<close> is a string.
\<close>

definition typedEnv :: env where
  "typedEnv =
     keyedEnv\<lparr>typeIs := (\<lambda>c s. case exampleProp s ''v'' of Str x \<Rightarrow> True | _ \<Rightarrow> False)\<rparr>"

text \<open>The same collection when every object carries the identifier 7.\<close>

definition sameIdEnv :: env where
  "sameIdEnv = keyedEnv\<lparr>getProp := (\<lambda>v a. if a = ''id'' then Num 7 else Undefined)\<rparr>"

text \<open>A node that does not accept writes.\<close>

definition readOnlyEnv :: env where
  "readOnlyEnv = scalarEnv\<lparr>writable := (\<lambda>w. False)\<rparr>"

text \<open>A container with the hooks registered and the given content.\<close>

definition liveArray :: "jsval list \<Rightarrow> world" where
  "liveArray xs = \<lparr>target = xs, events = [], intercepted = True, observed = True\<rparr>"

subsection \<open>The patches of a splice\<close>

text \<open>
  The patches the spec lists for a committed splice at \<open>i\<close>: \<open>r\<close> removals, from
  \<open>i + r - 1\<close> down to \<open>i\<close>, and \<open>a\<close> additions, from \<open>i\<close> up to \<open>i + a - 1\<close>.
\<close>

definition removePatches :: "int \<Rightarrow> int \<Rightarrow> patch list" where
  "removePatches i r =
     map (\<lambda>k. \<lparr>op = ''remove'', path = numToString (i + r - 1 - int k), val = None\<rparr>) [0..<nat r]"

definition addPatches :: "env \<Rightarrow> int \<Rightarrow> jsval list \<Rightarrow> int \<Rightarrow> patch list" where
  "addPatches env i added a =
     map (\<lambda>k. \<lparr>op = ''add'', path = numToString (i + int k),
               val = Some (valueToSnapshot env (js_index added (int k)))\<rparr>) [0..<nat a]"

section \<open>Properties\<close>

subsection \<open>The log and small facts\<close>

lemma logEvent_simps [simp]:
  "events (logEvent e w) = events w @ [e]"
  "target (logEvent e w) = target w"
  "intercepted (logEvent e w) = intercepted w"
  "observed (logEvent e w) = observed w"
  by (simp_all add: logEvent_def)

lemma upt_shift: "[0..<Suc n] = 0 # map Suc [0..<n]"
  by (simp add: upt_conv_Cons map_Suc_upt del: upt_Suc)

subsection \<open>didChange\<close>

lemma emitRemoves_events:
  "events (emitRemoves index i w) =
     events w @ map (\<lambda>k. EmitPatch \<lparr>op = ''remove'', path = numToString (i - int k), val = None\<rparr>)
                    [0..<nat (i - index + 1)]"
proof (induction index i w rule: emitRemoves.induct)
  case (1 index i w)
  show ?case
  proof (cases "i \<ge> index")
    case True
    then have n: "nat (i - index + 1) = Suc (nat (i - 1 - index + 1))" by simp
    have "events (emitRemoves index i w) =
            events (emitRemoves index (i - 1)
               (emitPatch \<lparr>op = ''remove'', path = numToString i, val = None\<rparr> w))"
      using True by (subst emitRemoves.simps) simp
    also have "\<dots> = events (emitPatch \<lparr>op = ''remove'', path = numToString i, val = None\<rparr> w) @
         map (\<lambda>k. EmitPatch \<lparr>op = ''remove'', path = numToString (i - 1 - int k), val = None\<rparr>)
             [0..<nat (i - 1 - index + 1)]"
      using 1 True by simp
    finally show ?thesis
      unfolding n upt_shift by (simp add: emitPatch_def comp_def algebra_simps)
  next
    case False
    then show ?thesis by (subst emitRemoves.simps) simp
  qed
qed

lemma emitAdds_events:
  "events (emitAdds env index added a i w) =
     events w @ map (\<lambda>k. EmitPatch \<lparr>op = ''add'', path = numToString (index + i + int k),
                                    val = Some (valueToSnapshot env (js_index added (i + int k)))\<rparr>)
                    [0..<nat (a - i)]"
proof (induction env index added a i w rule: emitAdds.induct)
  case (1 env index added a i w)
  show ?case
  proof (cases "i < a")
    case True
    then have n: "nat (a - i) = Suc (nat (a - (i + 1)))" by simp
    have "events (emitAdds env index added a i w) =
            events (emitAdds env index added a (i + 1)
               (emitPatch \<lparr>op = ''add'', path = numToString (index + i),
                           val = Some (valueToSnapshot env (js_index added i))\<rparr> w))"
      using True by (subst emitAdds.simps) simp
    also have "\<dots> = events (emitPatch \<lparr>op = ''add'', path = numToString (index + i),
                           val = Some (valueToSnapshot env (js_index added i))\<rparr> w) @
         map (\<lambda>k. EmitPatch \<lparr>op = ''add'', path = numToString (index + (i + 1) + int k),
                                    val = Some (valueToSnapshot env (js_index added (i + 1 + int k)))\<rparr>)
             [0..<nat (a - (i + 1))]"
      using 1 True by simp
    finally show ?thesis
      unfolding n upt_shift by (simp add: emitPatch_def comp_def algebra_simps)
  next
    case False
    then show ?thesis by (subst emitAdds.simps) simp
  qed
qed

lemma emitRemoves_frame [simp]:
  "target (emitRemoves index i w) = target w"
  "intercepted (emitRemoves index i w) = intercepted w"
  "observed (emitRemoves index i w) = observed w"
  by (induction index i w rule: emitRemoves.induct; subst emitRemoves.simps; simp add: emitPatch_def)+

lemma emitAdds_frame [simp]:
  "target (emitAdds env index added a i w) = target w"
  "intercepted (emitAdds env index added a i w) = intercepted w"
  "observed (emitAdds env index added a i w) = observed w"
  by (induction env index added a i w rule: emitAdds.induct; subst emitAdds.simps; simp add: emitPatch_def)+

lemma numToString_digits:
  "numToString 0 = ''0''" "numToString 1 = ''1''" "numToString 2 = ''2''" "numToString 3 = ''3''"
  by (simp_all add: numToString_def natToString.simps digitChar_def)

lemma didChange_splice_events:
  "events (didChange env (DidSplice i added a r) w) =
     events w @ map EmitPatch (removePatches i r @ addPatches env i added a)"
  by (simp add: emitAdds_events emitRemoves_events removePatches_def addPatches_def comp_def algebra_simps)

lemma emitted_append [simp]: "emitted (xs @ ys) = emitted xs @ emitted ys"
  by (simp add: emitted_def)

lemma emitted_map_EmitPatch [simp]: "emitted (map EmitPatch ps) = ps"
  by (induction ps) (simp_all add: emitted_def)

lemma emitted_map_comp [simp]: "emitted (map (EmitPatch \<circ> f) xs) = map f xs"
  by (induction xs) (simp_all add: emitted_def)

lemma newEvents_append: "events w' = events w @ es \<Longrightarrow> newEvents w w' = es"
  by (simp add: newEvents_def)

text \<open>
  C1. After a committed splice at index \<open>i\<close> that removed \<open>r\<close> elements and added \<open>a\<close>,
  \<^verbatim>\<open>didChange\<close> emits \<open>r\<close> remove patches with the paths \<open>i + r - 1\<close>, ..., \<open>i\<close>, in
  this descending order, and then \<open>a\<close> add patches with the paths \<open>i\<close>, ...,
  \<open>i + a - 1\<close>, in ascending order, the value of each being the snapshot of the added
  element at that position; it emits nothing else.
\<close>

theorem didChange_splice_patches:
  "emitted (newEvents w (didChange env (DidSplice i added a r) w)) =
     map (\<lambda>k. \<lparr>op = ''remove'', path = numToString (i + r - 1 - int k), val = None\<rparr>) [0..<nat r]
   @ map (\<lambda>k. \<lparr>op = ''add'', path = numToString (i + int k),
               val = Some (valueToSnapshot env (js_index added (int k)))\<rparr>) [0..<nat a]"
  using didChange_splice_events [of env i added a r w]
  by (simp add: newEvents_def removePatches_def addPatches_def)

text \<open>
  The example of the spec: a splice that removed 2 and inserted 3 at index 1 of
  \<^verbatim>\<open>[a, b, c, d]\<close> emits remove 2, remove 1, add 1, add 2, add 3.
\<close>

theorem didChange_splice_example:
  "emitted (newEvents (liveArray [Str ''a'', Str ''x'', Str ''y'', Str ''z'', Str ''d''])
      (didChange scalarEnv (DidSplice 1 [Str ''x'', Str ''y'', Str ''z''] 3 2)
         (liveArray [Str ''a'', Str ''x'', Str ''y'', Str ''z'', Str ''d'']))) =
     [\<lparr>op = ''remove'', path = ''2'', val = None\<rparr>,
      \<lparr>op = ''remove'', path = ''1'', val = None\<rparr>,
      \<lparr>op = ''add'', path = ''1'', val = Some (Str ''x'')\<rparr>,
      \<lparr>op = ''add'', path = ''2'', val = Some (Str ''y'')\<rparr>,
      \<lparr>op = ''add'', path = ''3'', val = Some (Str ''z'')\<rparr>]"
  using didChange_splice_patches [of "liveArray [Str ''a'', Str ''x'', Str ''y'', Str ''z'', Str ''d'']"
      scalarEnv 1 "[Str ''x'', Str ''y'', Str ''z'']" 3 2]
  by (simp add: numToString_digits js_index_def scalarEnv_def upt_conv_Cons del: upt_Suc)

subsection \<open>Slices\<close>

lemma js_slice_from_drop: "0 \<le> s \<Longrightarrow> js_slice_from xs s = drop (nat s) xs"
  by (auto simp: js_slice_from_def js_slice_def sliceBound_def Let_def min_def)

lemma js_slice_take_drop:
  "0 \<le> s \<Longrightarrow> s \<le> e \<Longrightarrow> js_slice xs s e = take (nat e - nat s) (drop (nat s) xs)"
  by (auto simp: js_slice_def sliceBound_def Let_def min_def nat_diff_distrib)

lemma js_slice_0_take: "0 \<le> e \<Longrightarrow> js_slice xs 0 e = take (nat e) xs"
  by (simp add: js_slice_take_drop)

lemma take_drop_nth_upt:
  "n \<le> length xs \<Longrightarrow> take (n - m) (drop m xs) = map (\<lambda>k. xs ! k) [m..<n]"
  by (auto simp: list_eq_iff_nth_eq)

lemma drop_nth_upt: "drop m xs = map (\<lambda>k. xs ! k) [m..<length xs]"
  by (auto simp: list_eq_iff_nth_eq)

subsection \<open>Projections of the log\<close>

lemma detached_append [simp]: "detached (xs @ ys) = detached xs @ detached ys"
  by (simp add: detached_def)

lemma reparented_append [simp]: "reparented (xs @ ys) = reparented xs @ reparented ys"
  by (simp add: reparented_def)

lemma prepared_append [simp]: "prepared (xs @ ys) = prepared xs @ prepared ys"
  by (simp add: prepared_def)

lemma preparedResults_append [simp]:
  "preparedResults (xs @ ys) = preparedResults xs @ preparedResults ys"
  by (simp add: preparedResults_def)

lemma reconciledCalls_append [simp]:
  "reconciledCalls (xs @ ys) = reconciledCalls xs @ reconciledCalls ys"
  by (simp add: reconciledCalls_def)

lemma projections_Nil [simp]:
  "emitted [] = []" "detached [] = []" "reparented [] = []" "prepared [] = []"
  "preparedResults [] = []" "reconciledCalls [] = []"
  by (simp_all add: emitted_def detached_def reparented_def prepared_def preparedResults_def
      reconciledCalls_def)

lemma projections_AssertWritable [simp]:
  "emitted (AssertWritable # es) = emitted es"
  "detached (AssertWritable # es) = detached es"
  "reparented (AssertWritable # es) = reparented es"
  "prepared (AssertWritable # es) = prepared es"
  "preparedResults (AssertWritable # es) = preparedResults es"
  "reconciledCalls (AssertWritable # es) = reconciledCalls es"
  by (simp_all add: emitted_def detached_def reparented_def prepared_def preparedResults_def
      reconciledCalls_def)

lemma projections_PrepareChild [simp]:
  "emitted (PrepareChild p v b x # es) = emitted es"
  "detached (PrepareChild p v b x # es) = detached es"
  "reparented (PrepareChild p v b x # es) = reparented es"
  "prepared (PrepareChild p v b x # es) = (p, v, b) # prepared es"
  "preparedResults (PrepareChild p v b x # es) = x # preparedResults es"
  "reconciledCalls (PrepareChild p v b x # es) = reconciledCalls es"
  by (simp_all add: emitted_def detached_def reparented_def prepared_def preparedResults_def
      reconciledCalls_def)

lemma projections_SetParent_None [simp]:
  "emitted (SetParent c q # es) = emitted es"
  "detached (SetParent c None # es) = c # detached es"
  "reparented (SetParent c None # es) = reparented es"
  "prepared (SetParent c q # es) = prepared es"
  "preparedResults (SetParent c q # es) = preparedResults es"
  "reconciledCalls (SetParent c q # es) = reconciledCalls es"
  by (simp_all add: emitted_def detached_def reparented_def prepared_def preparedResults_def
      reconciledCalls_def)

lemma projections_SetParent_Some [simp]:
  "detached (SetParent c (Some p) # es) = detached es"
  "reparented (SetParent c (Some p) # es) = (c, p) # reparented es"
  by (simp_all add: detached_def reparented_def)

lemma projections_EmitPatch [simp]:
  "emitted (EmitPatch p # es) = p # emitted es"
  "detached (EmitPatch p # es) = detached es"
  "reparented (EmitPatch p # es) = reparented es"
  "prepared (EmitPatch p # es) = prepared es"
  "preparedResults (EmitPatch p # es) = preparedResults es"
  "reconciledCalls (EmitPatch p # es) = reconciledCalls es"
  by (simp_all add: emitted_def detached_def reparented_def prepared_def preparedResults_def
      reconciledCalls_def)

lemma projections_map_PrepareChild [simp]:
  "emitted (map (\<lambda>k. PrepareChild (f k) (g k) b (h k)) ks) = []"
  "detached (map (\<lambda>k. PrepareChild (f k) (g k) b (h k)) ks) = []"
  "reparented (map (\<lambda>k. PrepareChild (f k) (g k) b (h k)) ks) = []"
  "prepared (map (\<lambda>k. PrepareChild (f k) (g k) b (h k)) ks) = map (\<lambda>k. (f k, g k, b)) ks"
  "preparedResults (map (\<lambda>k. PrepareChild (f k) (g k) b (h k)) ks) = map h ks"
  "reconciledCalls (map (\<lambda>k. PrepareChild (f k) (g k) b (h k)) ks) = []"
  by (induction ks) simp_all

lemma projections_map_detach [simp]:
  "emitted (map (\<lambda>c. SetParent c None) cs) = []"
  "detached (map (\<lambda>c. SetParent c None) cs) = cs"
  "reparented (map (\<lambda>c. SetParent c None) cs) = []"
  "prepared (map (\<lambda>c. SetParent c None) cs) = []"
  "preparedResults (map (\<lambda>c. SetParent c None) cs) = []"
  "reconciledCalls (map (\<lambda>c. SetParent c None) cs) = []"
  by (induction cs) simp_all

lemma projections_map_reparent [simp]:
  "emitted (map (\<lambda>k. SetParent (c k) (Some (p k))) ks) = []"
  "detached (map (\<lambda>k. SetParent (c k) (Some (p k))) ks) = []"
  "reparented (map (\<lambda>k. SetParent (c k) (Some (p k))) ks) = map (\<lambda>k. (c k, p k)) ks"
  "prepared (map (\<lambda>k. SetParent (c k) (Some (p k))) ks) = []"
  "preparedResults (map (\<lambda>k. SetParent (c k) (Some (p k))) ks) = []"
  "reconciledCalls (map (\<lambda>k. SetParent (c k) (Some (p k))) ks) = []"
  by (induction ks) simp_all

lemma projections_map_EmitPatch [simp]:
  "detached (map EmitPatch ps) = []"
  "reparented (map EmitPatch ps) = []"
  "prepared (map EmitPatch ps) = []"
  "preparedResults (map EmitPatch ps) = []"
  "reconciledCalls (map EmitPatch ps) = []"
  by (induction ps) simp_all

subsection \<open>reconcileUnkeyedArrayItems\<close>

lemma detachEach_events:
  "events (detachEach env vs w) = events w @ map (\<lambda>c. SetParent c None) (filter (isMST env) vs)"
  by (induction vs arbitrary: w) (simp_all add: maybeMST_def setParent_def)

lemma detachEach_frame [simp]:
  "target (detachEach env vs w) = target w"
  "intercepted (detachEach env vs w) = intercepted w"
  "observed (detachEach env vs w) = observed w"
  by (induction vs arbitrary: w; simp add: maybeMST_def setParent_def)+

lemma reindexEach_events:
  "events (reindexEach env index r delta idx vs w) =
     events w @ map (\<lambda>k. SetParent (vs ! k) (Some (numToString (index + r + (idx + int k) + delta))))
                    (filter (\<lambda>k. isMST env (vs ! k)) [0..<length vs])"
proof (induction vs arbitrary: idx w)
  case Nil
  then show ?case by simp
next
  case (Cons v vs)
  have shift: "filter (\<lambda>k. isMST env ((v # vs) ! k)) [0..<length (v # vs)] =
      (if isMST env v then [0] else []) @ map Suc (filter (\<lambda>k. isMST env (vs ! k)) [0..<length vs])"
    unfolding length_Cons upt_shift by (simp add: filter_map comp_def)
  show ?case
    unfolding reindexEach.simps Cons.IH shift
    by (simp add: maybeMST_def setParent_def comp_def algebra_simps)
qed

lemma reindexEach_frame [simp]:
  "target (reindexEach env index r delta idx vs w) = target w"
  "intercepted (reindexEach env index r delta idx vs w) = intercepted w"
  "observed (reindexEach env index r delta idx vs w) = observed w"
  by (induction vs arbitrary: idx w; simp add: maybeMST_def setParent_def)+

lemma reconcileEach_events:
  "reconcileEach env index pos vs w = (xs, w') \<Longrightarrow>
     length xs = length vs \<and>
     events w' = events w @ map (\<lambda>k. PrepareChild (numToString (index + (pos + int k))) (vs ! k) True (xs ! k))
                               [0..<length vs]"
proof (induction vs arbitrary: pos w xs w')
  case Nil
  then show ?case by simp
next
  case (Cons v vs)
  obtain x w1 where p: "prepareChild env (numToString (index + pos)) v True w = (x, w1)"
    by (cases "prepareChild env (numToString (index + pos)) v True w")
  obtain ys w2 where r: "reconcileEach env index (pos + 1) vs w1 = (ys, w2)"
    by (cases "reconcileEach env index (pos + 1) vs w1")
  from Cons.prems p r have xs: "xs = x # ys" and w': "w' = w2" by simp_all
  from p have e1: "events w1 = events w @ [PrepareChild (numToString (index + pos)) v True x]"
    by (auto simp: prepareChild_def Let_def)
  from Cons.IH [OF r] have len: "length ys = length vs"
    and e2: "events w2 = events w1 @
        map (\<lambda>k. PrepareChild (numToString (index + (pos + 1 + int k))) (vs ! k) True (ys ! k)) [0..<length vs]"
    by simp_all
  show ?case
    unfolding xs w' length_Cons upt_shift e2 e1 using len
    by (simp add: comp_def algebra_simps)
qed

lemma reconcileEach_frame:
  "reconcileEach env index pos vs w = (xs, w') \<Longrightarrow>
     target w' = target w \<and> intercepted w' = intercepted w \<and> observed w' = observed w"
proof (induction vs arbitrary: pos w xs w')
  case Nil
  then show ?case by simp
next
  case (Cons v vs)
  then show ?case
    by (auto simp: prepareChild_def Let_def split: prod.splits)
qed

lemma createEach_events:
  "createEach env index rc pos vs w = (xs, w') \<Longrightarrow>
     length xs = length vs \<and>
     events w' = events w @ map (\<lambda>k. PrepareChild (numToString (index + (pos + int k) + rc)) (vs ! k) False (xs ! k))
                               [0..<length vs]"
proof (induction vs arbitrary: pos w xs w')
  case Nil
  then show ?case by simp
next
  case (Cons v vs)
  obtain x w1 where p: "prepareChild env (numToString (index + pos + rc)) v False w = (x, w1)"
    by (cases "prepareChild env (numToString (index + pos + rc)) v False w")
  obtain ys w2 where r: "createEach env index rc (pos + 1) vs w1 = (ys, w2)"
    by (cases "createEach env index rc (pos + 1) vs w1")
  from Cons.prems p r have xs: "xs = x # ys" and w': "w' = w2" by simp_all
  from p have e1: "events w1 = events w @ [PrepareChild (numToString (index + pos + rc)) v False x]"
    by (auto simp: prepareChild_def Let_def)
  from Cons.IH [OF r] have len: "length ys = length vs"
    and e2: "events w2 = events w1 @
        map (\<lambda>k. PrepareChild (numToString (index + (pos + 1 + int k) + rc)) (vs ! k) False (ys ! k)) [0..<length vs]"
    by simp_all
  show ?case
    unfolding xs w' length_Cons upt_shift e2 e1 using len
    by (simp add: comp_def algebra_simps)
qed

lemma createEach_frame:
  "createEach env index rc pos vs w = (xs, w') \<Longrightarrow>
     target w' = target w \<and> intercepted w' = intercepted w \<and> observed w' = observed w"
proof (induction vs arbitrary: pos w xs w')
  case Nil
  then show ?case by simp
next
  case (Cons v vs)
  then show ?case
    by (auto simp: prepareChild_def Let_def split: prod.splits)
qed


lemma reconcileUnkeyedArrayItems_events:
  assumes run: "reconcileUnkeyedArrayItems env tgt i added r w = (xs, w')"
  defines "rc \<equiv> min r (int (length added))"
  defines "D \<equiv> (if r > rc then js_slice tgt (i + rc) (i + r) else [])"
  defines "T \<equiv> js_slice_from tgt (i + r)"
  defines "A1 \<equiv> js_slice added 0 rc"
  defines "A2 \<equiv> js_slice_from added rc"
  shows "events w' = events w
           @ map (\<lambda>c. SetParent c None) (filter (isMST env) D)
           @ map (\<lambda>k. SetParent (T ! k) (Some (numToString (i + r + int k + (int (length added) - r)))))
                 (filter (\<lambda>k. isMST env (T ! k)) [0..<length T])
           @ map (\<lambda>k. PrepareChild (numToString (i + int k)) (A1 ! k) True (xs ! k)) [0..<length A1]
           @ map (\<lambda>k. PrepareChild (numToString (i + int k + rc)) (A2 ! k) False (xs ! (length A1 + k)))
                 [0..<length A2]"
    and "length xs = length A1 + length A2"
    and "target w' = target w" and "intercepted w' = intercepted w" and "observed w' = observed w"
proof -
  define w1 where "w1 = (if r > rc then detachEach env (js_slice tgt (i + rc) (i + r)) w else w)"
  define w2 where "w2 = reindexEach env i r (int (length added) - r) 0 T w1"
  obtain ys w3 where rec: "reconcileEach env i 0 A1 w2 = (ys, w3)"
    by (cases "reconcileEach env i 0 A1 w2")
  obtain zs w4 where cre: "createEach env i rc 0 A2 w3 = (zs, w4)"
    by (cases "createEach env i rc 0 A2 w3")
  have xs: "xs = ys @ zs" and w': "w' = w4"
    using run rec cre
    unfolding reconcileUnkeyedArrayItems_def Let_def w2_def w1_def T_def A1_def A2_def D_def rc_def
    by simp_all
  have e1: "events w1 = events w @ map (\<lambda>c. SetParent c None) (filter (isMST env) D)"
    by (simp add: w1_def D_def detachEach_events)
  have e2: "events w2 = events w1 @
      map (\<lambda>k. SetParent (T ! k) (Some (numToString (i + r + int k + (int (length added) - r)))))
          (filter (\<lambda>k. isMST env (T ! k)) [0..<length T])"
    by (simp add: w2_def reindexEach_events)
  from reconcileEach_events [OF rec] have ly: "length ys = length A1"
    and e3: "events w3 = events w2 @
        map (\<lambda>k. PrepareChild (numToString (i + int k)) (A1 ! k) True (ys ! k)) [0..<length A1]"
    by simp_all
  from createEach_events [OF cre] have lz: "length zs = length A2"
    and e4: "events w4 = events w3 @
        map (\<lambda>k. PrepareChild (numToString (i + int k + rc)) (A2 ! k) False (zs ! k)) [0..<length A2]"
    by simp_all
  have m1: "map (\<lambda>k. PrepareChild (numToString (i + int k)) (A1 ! k) True (ys ! k)) [0..<length A1] =
            map (\<lambda>k. PrepareChild (numToString (i + int k)) (A1 ! k) True (xs ! k)) [0..<length A1]"
    by (rule map_cong) (simp_all add: xs ly nth_append)
  have m2: "map (\<lambda>k. PrepareChild (numToString (i + int k + rc)) (A2 ! k) False (zs ! k)) [0..<length A2] =
            map (\<lambda>k. PrepareChild (numToString (i + int k + rc)) (A2 ! k) False (xs ! (length A1 + k)))
                [0..<length A2]"
    by (rule map_cong) (simp_all add: xs ly nth_append)
  show "events w' = events w
           @ map (\<lambda>c. SetParent c None) (filter (isMST env) D)
           @ map (\<lambda>k. SetParent (T ! k) (Some (numToString (i + r + int k + (int (length added) - r)))))
                 (filter (\<lambda>k. isMST env (T ! k)) [0..<length T])
           @ map (\<lambda>k. PrepareChild (numToString (i + int k)) (A1 ! k) True (xs ! k)) [0..<length A1]
           @ map (\<lambda>k. PrepareChild (numToString (i + int k + rc)) (A2 ! k) False (xs ! (length A1 + k)))
                 [0..<length A2]"
    unfolding w' e4 e3 e2 e1 m1 m2 by simp
  show "length xs = length A1 + length A2"
    by (simp add: xs ly lz)
  have f1: "target w1 = target w \<and> intercepted w1 = intercepted w \<and> observed w1 = observed w"
    by (simp add: w1_def)
  have f2: "target w2 = target w1 \<and> intercepted w2 = intercepted w1 \<and> observed w2 = observed w1"
    by (simp add: w2_def)
  note f3 = reconcileEach_frame [OF rec]
  note f4 = createEach_frame [OF cre]
  show "target w' = target w" and "intercepted w' = intercepted w" and "observed w' = observed w"
    using f1 f2 f3 f4 by (simp_all add: w')
qed


lemma reconcileUnkeyedArrayItems_newEvents:
  "newEvents w (snd (reconcileUnkeyedArrayItems env tgt i added r w)) =
     map (\<lambda>c. SetParent c None)
       (filter (isMST env)
          (if r > min r (int (length added))
           then js_slice tgt (i + min r (int (length added))) (i + r) else []))
     @ map (\<lambda>k. SetParent (js_slice_from tgt (i + r) ! k)
                     (Some (numToString (i + r + int k + (int (length added) - r)))))
           (filter (\<lambda>k. isMST env (js_slice_from tgt (i + r) ! k))
              [0..<length (js_slice_from tgt (i + r))])
     @ map (\<lambda>k. PrepareChild (numToString (i + int k))
                     (js_slice added 0 (min r (int (length added))) ! k) True
                     (fst (reconcileUnkeyedArrayItems env tgt i added r w) ! k))
           [0..<length (js_slice added 0 (min r (int (length added))))]
     @ map (\<lambda>k. PrepareChild (numToString (i + int k + min r (int (length added))))
                     (js_slice_from added (min r (int (length added))) ! k) False
                     (fst (reconcileUnkeyedArrayItems env tgt i added r w)
                        ! (length (js_slice added 0 (min r (int (length added)))) + k)))
           [0..<length (js_slice_from added (min r (int (length added))))]"
  by (rule newEvents_append)
     (rule reconcileUnkeyedArrayItems_events(1) [OF prod.collapse [symmetric]])

text \<open>
  C6. Unkeyed reconciliation of a splice at index \<open>i\<close> that removes \<open>r\<close> elements and
  adds the list \<open>added\<close>, with \<open>reconcilableCount = min r (length added)\<close>: when
  \<open>r > reconcilableCount\<close>, the elements detached (\<^verbatim>\<open>setParent(null)\<close>) are exactly the
  nodes among the current elements at the positions \<open>i + reconcilableCount\<close>, ...,
  \<open>i + r - 1\<close>, in this order, and no other element is detached; otherwise nothing is
  detached. The splice lies within the array, as the container guarantees.
\<close>

theorem reconcileUnkeyed_detaches_dropped:
  assumes "0 \<le> i" and "i + r \<le> int (length tgt)"
  shows "detached (newEvents w (snd (reconcileUnkeyedArrayItems env tgt i added r w))) =
           (if r > min r (int (length added))
            then filter (isMST env)
                   (map (\<lambda>k. tgt ! k) [nat (i + min r (int (length added)))..<nat (i + r)])
            else [])"
proof (cases "r > min r (int (length added))")
  case True
  then have rc: "min r (int (length added)) = int (length added)" by simp
  have "js_slice tgt (i + int (length added)) (i + r) =
          take (nat (i + r) - nat (i + int (length added))) (drop (nat (i + int (length added))) tgt)"
    using assms True rc by (intro js_slice_take_drop) simp_all
  also have "\<dots> = map (\<lambda>k. tgt ! k) [nat (i + int (length added))..<nat (i + r)]"
    using assms by (intro take_drop_nth_upt) simp
  finally show ?thesis
    using True by (simp add: reconcileUnkeyedArrayItems_newEvents rc)
next
  case False
  then show ?thesis
    by (simp add: reconcileUnkeyedArrayItems_newEvents)
qed

text \<open>
  Removing three elements at index 1 and adding one: the elements at 2 and 3 are
  dropped, and the one of them that is a node is detached.
\<close>

theorem reconcileUnkeyed_detaches_dropped_example:
  "(0::int) \<le> 1 \<and> (1::int) + 3 \<le> int (length [Ref 1, Ref 2, Num 9, Ref 4, Ref 5]) \<and>
   detached (newEvents (liveArray [Ref 1, Ref 2, Num 9, Ref 4, Ref 5])
     (snd (reconcileUnkeyedArrayItems keyedEnv [Ref 1, Ref 2, Num 9, Ref 4, Ref 5] 1 [Str ''n''] 3
        (liveArray [Ref 1, Ref 2, Num 9, Ref 4, Ref 5])))) = [Ref 4]"
  using reconcileUnkeyed_detaches_dropped [of 1 3 "[Ref 1, Ref 2, Num 9, Ref 4, Ref 5]"
      "liveArray [Ref 1, Ref 2, Num 9, Ref 4, Ref 5]" keyedEnv "[Str ''n'']"]
  by (simp add: keyedEnv_def isRef_def)


lemma reconcileUnkeyedArrayItems_length:
  "length (fst (reconcileUnkeyedArrayItems env tgt i added r w)) = length added"
proof -
  have "length (fst (reconcileUnkeyedArrayItems env tgt i added r w)) =
          length (js_slice added 0 (min r (int (length added))))
        + length (js_slice_from added (min r (int (length added))))"
    by (rule reconcileUnkeyedArrayItems_events(2) [OF prod.collapse [symmetric]])
  also have "\<dots> = length added"
    by (auto simp: js_slice_from_def js_slice_def sliceBound_def Let_def min_def max_def)
  finally show ?thesis .
qed

lemma reconcileUnkeyedArrayItems_target:
  "target (snd (reconcileUnkeyedArrayItems env tgt i added r w)) = target w"
  "intercepted (snd (reconcileUnkeyedArrayItems env tgt i added r w)) = intercepted w"
  "observed (snd (reconcileUnkeyedArrayItems env tgt i added r w)) = observed w"
  by (rule reconcileUnkeyedArrayItems_events(3-5) [OF prod.collapse [symmetric]])+

lemma tail_positions:
  "map f (filter P [0..<length (drop n xs)]) =
   map (\<lambda>k. f (k - n)) (filter (\<lambda>k. P (k - n)) [n..<length xs])"
proof (cases "n \<le> length xs")
  case True
  have "[n..<length xs] = map (\<lambda>k. k + n) [0..<length xs - n]"
    using True by (simp add: map_add_upt)
  then show ?thesis
    by (simp add: filter_map comp_def)
next
  case False
  then show ?thesis by simp
qed

lemma spliceItemsIntoValues_tail:
  assumes "0 \<le> i" and "0 \<le> r" and "i + r \<le> int (length xs)" and "nat (i + r) \<le> k" and "k < length xs"
  shows "spliceItemsIntoValues xs i r ys ! nat (int k + (int (length ys) - r)) = xs ! k"
proof -
  define j where "j = k - nat (i + r)"
  have k: "k = nat (i + r) + j"
    using assms by (simp add: j_def)
  have idx: "nat (int k + (int (length ys) - r)) = nat i + (length ys + j)"
    using assms by (simp add: k nat_add_distrib)
  have li: "length (take (nat i) xs) = nat i"
    using assms by simp
  have "(take (nat i) xs @ ys @ drop (nat (i + r)) xs) ! (nat i + (length ys + j)) =
          (ys @ drop (nat (i + r)) xs) ! (length ys + j)"
    using li by (metis nth_append_length_plus)
  also have "\<dots> = drop (nat (i + r)) xs ! j"
    by (rule nth_append_length_plus)
  also have "\<dots> = xs ! k"
    using assms by (simp add: k)
  finally show ?thesis
    unfolding spliceItemsIntoValues_def idx .
qed

text \<open>
  C7. Unkeyed reconciliation of a splice at index \<open>i\<close> that removes \<open>r\<close> elements and
  adds \<open>a = length added\<close>: the calls \<^verbatim>\<open>setParent(node, path)\<close> are exactly one for each
  current element at an index \<open>k \<ge> i + r\<close> that is a node, in order, with the path
  \<open>k + (a - r)\<close>; the array itself is not changed by the reconciliation (it runs before
  the commit); and once the splice is committed with the reconciled items, the element
  is found at that index \<open>k + (a - r)\<close>.
\<close>

theorem reconcileUnkeyed_reindexes_tail:
  assumes "0 \<le> i" and "0 \<le> r" and "i + r \<le> int (length tgt)"
  shows "reparented (newEvents w (snd (reconcileUnkeyedArrayItems env tgt i added r w))) =
           map (\<lambda>k. (tgt ! k, numToString (int k + (int (length added) - r))))
               (filter (\<lambda>k. isMST env (tgt ! k)) [nat (i + r)..<length tgt])
       \<and> target (snd (reconcileUnkeyedArrayItems env tgt i added r w)) = target w
       \<and> (\<forall>k. nat (i + r) \<le> k \<and> k < length tgt \<longrightarrow>
            spliceItemsIntoValues tgt i r (fst (reconcileUnkeyedArrayItems env tgt i added r w))
              ! nat (int k + (int (length added) - r)) = tgt ! k)"
proof (intro conjI allI impI)
  have ir: "0 \<le> i + r" using assms by simp
  have T: "js_slice_from tgt (i + r) = drop (nat (i + r)) tgt"
    using ir by (rule js_slice_from_drop)
  have "reparented (newEvents w (snd (reconcileUnkeyedArrayItems env tgt i added r w))) =
          map (\<lambda>k. (drop (nat (i + r)) tgt ! k, numToString (i + r + int k + (int (length added) - r))))
              (filter (\<lambda>k. isMST env (drop (nat (i + r)) tgt ! k)) [0..<length (drop (nat (i + r)) tgt)])"
    by (simp add: reconcileUnkeyedArrayItems_newEvents T)
  also have "\<dots> =
          map (\<lambda>k. (drop (nat (i + r)) tgt ! (k - nat (i + r)),
                     numToString (i + r + int (k - nat (i + r)) + (int (length added) - r))))
              (filter (\<lambda>k. isMST env (drop (nat (i + r)) tgt ! (k - nat (i + r)))) [nat (i + r)..<length tgt])"
    by (rule tail_positions)
  also have "\<dots> =
          map (\<lambda>k. (tgt ! k, numToString (int k + (int (length added) - r))))
              (filter (\<lambda>k. isMST env (tgt ! k)) [nat (i + r)..<length tgt])"
  proof (rule map_cong)
    show "filter (\<lambda>k. isMST env (drop (nat (i + r)) tgt ! (k - nat (i + r)))) [nat (i + r)..<length tgt] =
          filter (\<lambda>k. isMST env (tgt ! k)) [nat (i + r)..<length tgt]"
      using assms by (intro filter_cong) simp_all
  next
    fix k assume "k \<in> set (filter (\<lambda>k. isMST env (tgt ! k)) [nat (i + r)..<length tgt])"
    then have k: "nat (i + r) \<le> k" "k < length tgt" by simp_all
    have eq: "i + r + int (k - nat (i + r)) = int k"
      using ir k by simp
    have d: "drop (nat (i + r)) tgt ! (k - nat (i + r)) = tgt ! k"
      using k by simp
    show "(drop (nat (i + r)) tgt ! (k - nat (i + r)),
                 numToString (i + r + int (k - nat (i + r)) + (int (length added) - r))) =
               (tgt ! k, numToString (int k + (int (length added) - r)))"
      unfolding eq d by (rule refl)
  qed
  finally show "reparented (newEvents w (snd (reconcileUnkeyedArrayItems env tgt i added r w))) =
           map (\<lambda>k. (tgt ! k, numToString (int k + (int (length added) - r))))
               (filter (\<lambda>k. isMST env (tgt ! k)) [nat (i + r)..<length tgt])" .
next
  show "target (snd (reconcileUnkeyedArrayItems env tgt i added r w)) = target w"
    by (rule reconcileUnkeyedArrayItems_target)
next
  fix k assume "nat (i + r) \<le> k \<and> k < length tgt"
  then show "spliceItemsIntoValues tgt i r (fst (reconcileUnkeyedArrayItems env tgt i added r w))
              ! nat (int k + (int (length added) - r)) = tgt ! k"
    using spliceItemsIntoValues_tail [OF assms, of k "fst (reconcileUnkeyedArrayItems env tgt i added r w)"]
    by (simp add: reconcileUnkeyedArrayItems_length)
qed


text \<open>
  Replacing the element at index 1 by three: the nodes at 3 and 4 are registered under
  5 and 6, where the committed splice puts them.
\<close>

theorem reconcileUnkeyed_reindexes_tail_example:
  "(0::int) \<le> 1 \<and> (1::int) + 1 \<le> int (length [Ref 1, Ref 2, Num 9, Ref 4, Ref 5]) \<and>
   reparented (newEvents (liveArray [Ref 1, Ref 2, Num 9, Ref 4, Ref 5])
     (snd (reconcileUnkeyedArrayItems keyedEnv [Ref 1, Ref 2, Num 9, Ref 4, Ref 5] 1
        [Str ''l'', Str ''m'', Str ''n''] 1 (liveArray [Ref 1, Ref 2, Num 9, Ref 4, Ref 5])))) =
     [(Ref 4, ''5''), (Ref 5, ''6'')] \<and>
   spliceItemsIntoValues [Ref 1, Ref 2, Num 9, Ref 4, Ref 5] 1 1
     (fst (reconcileUnkeyedArrayItems keyedEnv [Ref 1, Ref 2, Num 9, Ref 4, Ref 5] 1
        [Str ''l'', Str ''m'', Str ''n''] 1 (liveArray [Ref 1, Ref 2, Num 9, Ref 4, Ref 5]))) ! 5 = Ref 4"
proof -
  let ?tgt = "[Ref 1, Ref 2, Num 9, Ref 4, Ref 5]"
  let ?added = "[Str ''l'', Str ''m'', Str ''n'']"
  let ?R = "reconcileUnkeyedArrayItems keyedEnv ?tgt 1 ?added 1 (liveArray ?tgt)"
  have h1: "(0::int) \<le> 1" and h2: "(1::int) + 1 \<le> int (length ?tgt)"
    by simp_all
  note t = reconcileUnkeyed_reindexes_tail [OF h1 h1 h2, of "liveArray ?tgt" keyedEnv ?added]
  from t have a: "reparented (newEvents (liveArray ?tgt) (snd ?R)) = [(Ref 4, ''5''), (Ref 5, ''6'')]"
    by (simp add: keyedEnv_def isRef_def numToString_def natToString.simps digitChar_def)
  from t [THEN conjunct2, THEN conjunct2, rule_format, of 3]
  have b: "spliceItemsIntoValues ?tgt 1 1 (fst ?R) ! 5 = Ref 4"
    by simp
  from h1 h2 a b show ?thesis by simp
qed

lemma nth_segments:
  "length xs = n + m \<Longrightarrow> map (\<lambda>k. xs ! k) [0..<n] @ map (\<lambda>k. xs ! (n + k)) [0..<m] = xs"
  by (auto simp: list_eq_iff_nth_eq nth_append)

lemma willChange_splice:
  "writable env w \<Longrightarrow>
     willChange env (WillSplice i added r) w =
       (Inr (Some (WillSplice i
          (fst (reconcileUnkeyedArrayItems env (target w) i added r (logEvent AssertWritable w))) r)),
        snd (reconcileUnkeyedArrayItems env (target w) i added r (logEvent AssertWritable w)))"
  by (simp add: willChange_def assertWritable_def split: prod.splits)

lemma willChange_not_writable:
  "\<not> writable env w \<Longrightarrow> willChange env change w = (Inl NotWritable, logEvent AssertWritable w)"
  by (simp add: willChange_def assertWritable_def)

text \<open>
  C8. With \<open>rc = min r (length added)\<close>, unkeyed reconciliation calls \<^verbatim>\<open>prepareChild\<close>
  on the first \<open>rc\<close> entries of \<open>added\<close> with the path \<open>i + pos\<close> and
  \<open>reconcileExisting = true\<close>, then on the remaining \<open>length added - rc\<close> entries with
  the path \<open>i + rc + pos\<close> and \<open>reconcileExisting = false\<close>, and returns the results of
  these calls in this order: a list as long as \<open>added\<close>. The change that \<^verbatim>\<open>willChange\<close>
  hands back for a splice on a writable node has this list as its payload and the
  index and removal count it was given.
\<close>

theorem reconcileUnkeyed_prepares_added:
  fixes env tgt i added r w
  defines "R \<equiv> reconcileUnkeyedArrayItems env tgt i added r w"
  defines "rc \<equiv> nat (min r (int (length added)))"
  assumes r: "0 \<le> r"
  shows "prepared (newEvents w (snd R)) =
            map (\<lambda>pos. (numToString (i + int pos), added ! pos, True)) [0..<rc]
          @ map (\<lambda>pos. (numToString (i + int rc + int pos), added ! (rc + pos), False))
                [0..<length added - rc]
       \<and> fst R = preparedResults (newEvents w (snd R))
       \<and> length (fst R) = length added
       \<and> (writable env w \<longrightarrow>
            fst (willChange env (WillSplice i added r) w) =
              Inr (Some (WillSplice i
                (fst (reconcileUnkeyedArrayItems env (target w) i added r (logEvent AssertWritable w)))
                r)))"
proof (intro conjI impI)
  have rc_int: "min r (int (length added)) = int rc"
    using r by (simp add: rc_def)
  have rc_le: "rc \<le> length added"
    using r by (simp add: rc_def)
  have A1: "js_slice added 0 (int rc) = take rc added"
    by (simp add: js_slice_0_take)
  have A2: "js_slice_from added (int rc) = drop rc added"
    by (simp add: js_slice_from_drop)
  have l1: "length (take rc added) = rc"
    using rc_le by simp
  have ev: "newEvents w (snd R) =
       map (\<lambda>c. SetParent c None)
         (filter (isMST env) (if r > int rc then js_slice tgt (i + int rc) (i + r) else []))
     @ map (\<lambda>k. SetParent (js_slice_from tgt (i + r) ! k)
                     (Some (numToString (i + r + int k + (int (length added) - r)))))
           (filter (\<lambda>k. isMST env (js_slice_from tgt (i + r) ! k))
              [0..<length (js_slice_from tgt (i + r))])
     @ map (\<lambda>k. PrepareChild (numToString (i + int k)) (take rc added ! k) True (fst R ! k)) [0..<rc]
     @ map (\<lambda>k. PrepareChild (numToString (i + int k + int rc)) (drop rc added ! k) False (fst R ! (rc + k)))
           [0..<length added - rc]"
    unfolding R_def reconcileUnkeyedArrayItems_newEvents rc_int A1 A2 l1 by simp
  have p1: "map (\<lambda>k. (numToString (i + int k), take rc added ! k, True)) [0..<rc] =
            map (\<lambda>pos. (numToString (i + int pos), added ! pos, True)) [0..<rc]"
    by (rule map_cong) simp_all
  have p2: "map (\<lambda>k. (numToString (i + int k + int rc), drop rc added ! k, False)) [0..<length added - rc] =
            map (\<lambda>pos. (numToString (i + int rc + int pos), added ! (rc + pos), False))
                [0..<length added - rc]"
    by (rule map_cong) (simp_all add: algebra_simps)
  show "prepared (newEvents w (snd R)) =
            map (\<lambda>pos. (numToString (i + int pos), added ! pos, True)) [0..<rc]
          @ map (\<lambda>pos. (numToString (i + int rc + int pos), added ! (rc + pos), False))
                [0..<length added - rc]"
    unfolding ev by (simp add: p1 p2)
  have len: "length (fst R) = rc + (length added - rc)"
    using rc_le by (simp add: R_def reconcileUnkeyedArrayItems_length)
  show "fst R = preparedResults (newEvents w (snd R))"
    unfolding ev using nth_segments [OF len] by simp
  show "length (fst R) = length added"
    by (simp add: R_def reconcileUnkeyedArrayItems_length)
next
  assume "writable env w"
  then show "fst (willChange env (WillSplice i added r) w) =
              Inr (Some (WillSplice i
                (fst (reconcileUnkeyedArrayItems env (target w) i added r (logEvent AssertWritable w)))
                r))"
    by (simp add: willChange_splice)
qed


text \<open>
  Replacing the element at index 1 of three by two raw values: the first is reconciled
  at path 1, the second created at path 2.
\<close>

theorem reconcileUnkeyed_prepares_added_example:
  "(0::int) \<le> 1 \<and>
   prepared (newEvents (liveArray [Ref 1, Ref 2, Ref 3])
     (snd (reconcileUnkeyedArrayItems keyedEnv [Ref 1, Ref 2, Ref 3] 1 [Str ''x'', Str ''y''] 1
        (liveArray [Ref 1, Ref 2, Ref 3])))) =
     [(''1'', Str ''x'', True), (''2'', Str ''y'', False)] \<and>
   fst (reconcileUnkeyedArrayItems keyedEnv [Ref 1, Ref 2, Ref 3] 1 [Str ''x'', Str ''y''] 1
        (liveArray [Ref 1, Ref 2, Ref 3])) =
     preparedResults (newEvents (liveArray [Ref 1, Ref 2, Ref 3])
       (snd (reconcileUnkeyedArrayItems keyedEnv [Ref 1, Ref 2, Ref 3] 1 [Str ''x'', Str ''y''] 1
          (liveArray [Ref 1, Ref 2, Ref 3])))) \<and>
   length (fst (reconcileUnkeyedArrayItems keyedEnv [Ref 1, Ref 2, Ref 3] 1 [Str ''x'', Str ''y''] 1
        (liveArray [Ref 1, Ref 2, Ref 3]))) = 2 \<and>
   fst (willChange keyedEnv (WillSplice 1 [Str ''x'', Str ''y''] 1) (liveArray [Ref 1, Ref 2, Ref 3])) =
     Inr (Some (WillSplice 1 [Ref 102, Ref 103] 1))"
proof -
  let ?tgt = "[Ref 1, Ref 2, Ref 3]"
  let ?added = "[Str ''x'', Str ''y'']"
  have h: "(0::int) \<le> 1" by simp
  have wr: "writable keyedEnv (liveArray ?tgt)" by (simp add: keyedEnv_def)
  have ev: "fst (reconcileUnkeyedArrayItems keyedEnv (target (liveArray ?tgt)) 1 ?added 1
               (logEvent AssertWritable (liveArray ?tgt))) = [Ref 102, Ref 103]"
    by (simp add: reconcileUnkeyedArrayItems_def js_slice_def js_slice_from_def sliceBound_def
        Let_def maybeMST_def setParent_def prepareChild_def logEvent_def keyedEnv_def isRef_def
        liveArray_def)
  note t = reconcileUnkeyed_prepares_added
    [OF h, where env = keyedEnv and tgt = ?tgt and i = 1 and added = ?added and w = "liveArray ?tgt"]
  have a: "prepared (newEvents (liveArray ?tgt)
       (snd (reconcileUnkeyedArrayItems keyedEnv ?tgt 1 ?added 1 (liveArray ?tgt)))) =
     [(''1'', Str ''x'', True), (''2'', Str ''y'', False)]"
    using t [THEN conjunct1] by (simp add: numToString_def natToString.simps digitChar_def)
  note b = t [THEN conjunct2, THEN conjunct1]
  have c: "length (fst (reconcileUnkeyedArrayItems keyedEnv ?tgt 1 ?added 1 (liveArray ?tgt))) = 2"
    using t [THEN conjunct2, THEN conjunct2, THEN conjunct1] by simp
  have d: "fst (willChange keyedEnv (WillSplice 1 ?added 1) (liveArray ?tgt)) =
             Inr (Some (WillSplice 1 [Ref 102, Ref 103] 1))"
    using t [THEN conjunct2, THEN conjunct2, THEN conjunct2, rule_format, OF wr]
    unfolding ev .
  show ?thesis
    by (intro conjI h a b c d)
qed

subsection \<open>willChange on an update\<close>

text \<open>
  C9, amended. An update of slot \<open>i\<close> whose new value is identical to the current
  value of the slot: on a writable node \<^verbatim>\<open>willChange\<close> returns \<^verbatim>\<open>null\<close>; on a node that
  is not writable it throws the not-writable error instead. Either way its only call
  into the tree layer is \<^verbatim>\<open>assertWritable\<close>, so nothing is prepared, detached,
  reparented or emitted, and the write of the slot on the intercepted container ends
  there, with the array as it was.
\<close>

theorem willChange_identical_update:
  "(writable env w \<longrightarrow>
      willChange env (WillUpdate i (js_index (target w) i)) w = (Inr None, logEvent AssertWritable w))
   \<and> (\<not> writable env w \<longrightarrow>
      willChange env (WillUpdate i (js_index (target w) i)) w =
        (Inl NotWritable, logEvent AssertWritable w))
   \<and> (intercepted w \<and> 0 \<le> i \<and> i < int (length (target w)) \<longrightarrow>
      snd (arraySet env i (js_index (target w) i) w) = logEvent AssertWritable w)
   \<and> target (logEvent AssertWritable w) = target w
   \<and> prepared (newEvents w (logEvent AssertWritable w)) = []
   \<and> emitted (newEvents w (logEvent AssertWritable w)) = []
   \<and> detached (newEvents w (logEvent AssertWritable w)) = []
   \<and> reparented (newEvents w (logEvent AssertWritable w)) = []"
proof -
  let ?old = "js_index (target w) i"
  have veto: "willChange env (WillUpdate i ?old) w = (Inr None, logEvent AssertWritable w)"
    if "writable env w"
    using that by (simp add: willChange_def assertWritable_def)
  have thrown: "willChange env (WillUpdate i ?old) w = (Inl NotWritable, logEvent AssertWritable w)"
    if "\<not> writable env w"
    using that by (rule willChange_not_writable)
  have "snd (arraySet env i ?old w) = logEvent AssertWritable w"
    if "intercepted w" and "0 \<le> i" and "i < int (length (target w))"
  proof (cases "writable env w")
    case True
    with that veto show ?thesis by (simp add: arraySet_def interceptChange_def)
  next
    case False
    with that thrown show ?thesis by (simp add: arraySet_def interceptChange_def)
  qed
  moreover have "newEvents w (logEvent AssertWritable w) = [AssertWritable]"
    by (simp add: newEvents_def)
  ultimately show ?thesis
    using veto thrown by simp
qed

text \<open>
  Writing 5 into a slot that holds 5, on a writable node and on one that is not.
\<close>

theorem willChange_identical_update_example:
  "writable scalarEnv (liveArray [Num 4, Num 5]) \<and>
   willChange scalarEnv (WillUpdate 1 (Num 5)) (liveArray [Num 4, Num 5]) =
     (Inr None, logEvent AssertWritable (liveArray [Num 4, Num 5])) \<and>
   snd (arraySet scalarEnv 1 (Num 5) (liveArray [Num 4, Num 5])) =
     logEvent AssertWritable (liveArray [Num 4, Num 5]) \<and>
   \<not> writable readOnlyEnv (liveArray [Num 4, Num 5]) \<and>
   willChange readOnlyEnv (WillUpdate 1 (Num 5)) (liveArray [Num 4, Num 5]) =
     (Inl NotWritable, logEvent AssertWritable (liveArray [Num 4, Num 5])) \<and>
   snd (arraySet readOnlyEnv 1 (Num 5) (liveArray [Num 4, Num 5])) =
     logEvent AssertWritable (liveArray [Num 4, Num 5]) \<and>
   target (logEvent AssertWritable (liveArray [Num 4, Num 5])) = [Num 4, Num 5] \<and>
   prepared (newEvents (liveArray [Num 4, Num 5]) (logEvent AssertWritable (liveArray [Num 4, Num 5]))) = [] \<and>
   emitted (newEvents (liveArray [Num 4, Num 5]) (logEvent AssertWritable (liveArray [Num 4, Num 5]))) = []"
proof -
  let ?w = "liveArray [Num 4, Num 5]"
  have h: "writable scalarEnv ?w" and n: "\<not> writable readOnlyEnv ?w"
    by (simp_all add: scalarEnv_def readOnlyEnv_def)
  have v: "js_index (target ?w) 1 = Num 5"
    by (simp add: js_index_def liveArray_def)
  have r: "intercepted ?w \<and> (0::int) \<le> 1 \<and> 1 < int (length (target ?w))"
    by (simp add: liveArray_def)
  note a = willChange_identical_update [where env = scalarEnv and w = ?w and i = 1, unfolded v]
  note b = willChange_identical_update [where env = readOnlyEnv and w = ?w and i = 1, unfolded v]
  have a1: "willChange scalarEnv (WillUpdate 1 (Num 5)) ?w = (Inr None, logEvent AssertWritable ?w)"
    by (rule a [THEN conjunct1, THEN mp, OF h])
  have a2: "snd (arraySet scalarEnv 1 (Num 5) ?w) = logEvent AssertWritable ?w"
    by (rule a [THEN conjunct2, THEN conjunct2, THEN conjunct1, THEN mp, OF r])
  have b1: "willChange readOnlyEnv (WillUpdate 1 (Num 5)) ?w =
              (Inl NotWritable, logEvent AssertWritable ?w)"
    by (rule b [THEN conjunct2, THEN conjunct1, THEN mp, OF n])
  have b2: "snd (arraySet readOnlyEnv 1 (Num 5) ?w) = logEvent AssertWritable ?w"
    by (rule b [THEN conjunct2, THEN conjunct2, THEN conjunct1, THEN mp, OF r])
  have c: "target (logEvent AssertWritable ?w) = [Num 4, Num 5]"
    using a by (simp add: liveArray_def)
  have d: "prepared (newEvents ?w (logEvent AssertWritable ?w)) = []"
    and e: "emitted (newEvents ?w (logEvent AssertWritable ?w)) = []"
    using a by blast+
  show ?thesis
    by (intro conjI h a1 a2 n b1 b2 c d e)
qed

text \<open>
  C9 as stated fails on a node that is not writable: the new value is the one the slot
  holds, and the hook throws instead of returning \<^verbatim>\<open>null\<close>.
\<close>

theorem willChange_identical_update_not_writable:
  "js_index (target (liveArray [Num 4, Num 5])) 1 = Num 5 \<and>
   fst (willChange readOnlyEnv (WillUpdate 1 (Num 5)) (liveArray [Num 4, Num 5])) = Inl NotWritable \<and>
   fst (willChange readOnlyEnv (WillUpdate 1 (Num 5)) (liveArray [Num 4, Num 5])) \<noteq> Inr None"
  by (simp add: willChange_not_writable readOnlyEnv_def scalarEnv_def js_index_def liveArray_def)

subsection \<open>applyPatchLocally\<close>

text \<open>
  C10. A patch whose \<open>op\<close> is none of \<^verbatim>\<open>add\<close>, \<^verbatim>\<open>remove\<close> and \<^verbatim>\<open>replace\<close> is ignored by
  \<^verbatim>\<open>applyPatchLocally\<close>: it returns without an error and the container, the log
  included, is as before.
\<close>

theorem applyPatchLocally_ignores_unknown_op:
  assumes "op p \<noteq> ''add''" and "op p \<noteq> ''remove''" and "op p \<noteq> ''replace''"
  shows "applyPatchLocally env subpath p w = (Inr (), w)"
  using assms by (simp add: applyPatchLocally_def Let_def)

text \<open>A \<^verbatim>\<open>move\<close> patch.\<close>

theorem applyPatchLocally_ignores_unknown_op_example:
  "applyPatchLocally scalarEnv ''0'' \<lparr>op = ''move'', path = ''/0'', val = Some (Num 1)\<rparr>
     (liveArray [Num 4, Num 5]) = (Inr (), liveArray [Num 4, Num 5])"
  using applyPatchLocally_ignores_unknown_op
    [of "\<lparr>op = ''move'', path = ''/0'', val = Some (Num 1)\<rparr>" scalarEnv "''0''" "liveArray [Num 4, Num 5]"]
  by simp

subsection \<open>reconcileArrayItems\<close>

lemma lookupCurrent_falsy:
  "\<forall>k v. current k = Some v \<longrightarrow> truthy v \<Longrightarrow> \<not> truthy (lookupCurrent current k) \<Longrightarrow> current k = None"
  by (cases "current k") (auto simp: lookupCurrent_def)

lemma collectCurrent_distinct:
  assumes "collectCurrent env a tgt current = Inr current'"
      and "\<forall>c\<in>set tgt. truthy c" and "\<forall>k v. current k = Some v \<longrightarrow> truthy v"
  shows "(\<forall>c\<in>set tgt. current (identifierOf env a c) = None)
       \<and> distinct (map (identifierOf env a) tgt)
       \<and> (\<forall>k. current' k = (case map_of (map (\<lambda>c. (identifierOf env a c, c)) tgt) k of
                               Some c \<Rightarrow> Some c | None \<Rightarrow> current k))"
  using assms
proof (induction tgt arbitrary: current)
  case Nil
  then show ?case by simp
next
  case (Cons item rest)
  let ?id = "identifierOf env a item"
  from Cons.prems(1) have rp: "readProp env item a = Inr (getProp env item a)"
    by (auto simp: readProp_def split: if_splits)
  from Cons.prems(1) rp have falsy: "\<not> truthy (lookupCurrent current ?id)"
    and rest: "collectCurrent env a rest (current(?id \<mapsto> item)) = Inr current'"
    by (auto simp: identifierOf_def Let_def split: if_splits)
  from falsy Cons.prems(3) have none: "current ?id = None"
    by (rule lookupCurrent_falsy [rotated])
  have t2: "\<forall>k v. (current(?id \<mapsto> item)) k = Some v \<longrightarrow> truthy v"
    using Cons.prems(2,3) by auto
  from Cons.IH [OF rest _ t2] Cons.prems(2)
  have ih1: "\<forall>c\<in>set rest. (current(?id \<mapsto> item)) (identifierOf env a c) = None"
    and ih2: "distinct (map (identifierOf env a) rest)"
    and ih3: "\<forall>k. current' k = (case map_of (map (\<lambda>c. (identifierOf env a c, c)) rest) k of
                               Some c \<Rightarrow> Some c | None \<Rightarrow> (current(?id \<mapsto> item)) k)"
    by simp_all
  from ih1 have ne: "\<forall>c\<in>set rest. identifierOf env a c \<noteq> ?id"
    by (auto split: if_splits)
  from ih1 ne have c1: "\<forall>c\<in>set rest. current (identifierOf env a c) = None"
    by (auto split: if_splits)
  have nomatch: "map_of (map (\<lambda>c. (identifierOf env a c, c)) rest) ?id = None"
    using ne by (auto simp: map_of_eq_None_iff image_iff)
  show ?case
  proof (intro conjI allI)
    show "\<forall>c\<in>set (item # rest). current (identifierOf env a c) = None"
      using none c1 by simp
    show "distinct (map (identifierOf env a) (item # rest))"
      using ih2 ne by auto
    fix k
    show "current' k = (case map_of (map (\<lambda>c. (identifierOf env a c, c)) (item # rest)) k of
                               Some c \<Rightarrow> Some c | None \<Rightarrow> current k)"
      using ih3 [rule_format, of k] nomatch by (auto split: option.splits)
  qed
qed

lemma collectCurrent_empty:
  assumes "collectCurrent env a tgt Map.empty = Inr current"
      and "\<forall>c\<in>set tgt. truthy c"
  shows "distinct (map (identifierOf env a) tgt)"
    and "current k = Some c \<longleftrightarrow> c \<in> set tgt \<and> identifierOf env a c = k"
proof -
  have t: "\<forall>k v. Map.empty k = Some v \<longrightarrow> truthy v" by simp
  note d = collectCurrent_distinct [OF assms t]
  from d show dist: "distinct (map (identifierOf env a) tgt)" by simp
  from d have cur: "current k = map_of (map (\<lambda>c. (identifierOf env a c, c)) tgt) k"
    by (auto split: option.splits)
  have "distinct (map fst (map (\<lambda>c. (identifierOf env a c, c)) tgt))"
    using dist by (simp add: comp_def)
  then have "map_of (map (\<lambda>c. (identifierOf env a c, c)) tgt) k = Some c
         \<longleftrightarrow> (k, c) \<in> set (map (\<lambda>c. (identifierOf env a c, c)) tgt)"
    by (rule map_of_eq_Some_iff)
  then show "current k = Some c \<longleftrightarrow> c \<in> set tgt \<and> identifierOf env a c = k"
    unfolding cur by auto
qed

lemma reconcileItems_events:
  assumes "reconcileItems env a current snapshot w = (Inr res, w')"
  shows "length res = length snapshot
       \<and> events w' = events w @
            map (\<lambda>k. if truthy (lookupCurrent current (identifierOf env a (snapshot ! k)))
                         \<and> typeIs env (lookupCurrent current (identifierOf env a (snapshot ! k))) (snapshot ! k)
                      then ApplySnapshot (res ! k) (snapshot ! k)
                      else Create (snapshot ! k) (res ! k)) [0..<length snapshot]
       \<and> (\<forall>k<length snapshot.
             truthy (lookupCurrent current (identifierOf env a (snapshot ! k)))
             \<and> typeIs env (lookupCurrent current (identifierOf env a (snapshot ! k))) (snapshot ! k)
             \<longrightarrow> res ! k = lookupCurrent current (identifierOf env a (snapshot ! k)))
       \<and> target w' = target w \<and> intercepted w' = intercepted w \<and> observed w' = observed w"
  using assms
proof (induction snapshot arbitrary: w res w')
  case Nil
  then show ?case by simp
next
  case (Cons item rest)
  let ?ex = "lookupCurrent current (identifierOf env a item)"
  let ?keep = "truthy ?ex \<and> typeIs env ?ex item"
  from Cons.prems have rp: "readProp env item a = Inr (getProp env item a)"
    by (auto simp: readProp_def split: if_splits)
  obtain x w1 where step: "(if ?keep then (?ex, coreApplySnapshot ?ex item w) else create env item w) = (x, w1)"
    by (cases "if ?keep then (?ex, coreApplySnapshot ?ex item w) else create env item w")
  obtain r2 w2 where rec: "reconcileItems env a current rest w1 = (r2, w2)"
    by (cases "reconcileItems env a current rest w1")
  have unfold: "reconcileItems env a current (item # rest) w =
      (case (if ?keep then (?ex, coreApplySnapshot ?ex item w) else create env item w) of
         (x, w1) \<Rightarrow>
           (case reconcileItems env a current rest w1 of
              (Inl e, w2) \<Rightarrow> (Inl e, w2)
            | (Inr xs, w2) \<Rightarrow> (Inr (x # xs), w2)))"
    using rp by (simp add: identifierOf_def Let_def)
  from Cons.prems have "(case r2 of Inl e \<Rightarrow> (Inl e, w2) | Inr xs \<Rightarrow> (Inr (x # xs), w2)) = (Inr res, w')"
    unfolding unfold step by (simp add: rec)
  then obtain xs where r2: "r2 = Inr xs" and res: "res = x # xs" and w': "w' = w2"
    by (cases r2) auto
  from step have x: "?keep \<longrightarrow> x = ?ex"
    and e1: "events w1 = events w @ [if ?keep then ApplySnapshot x item else Create item x]"
    and f1: "target w1 = target w \<and> intercepted w1 = intercepted w \<and> observed w1 = observed w"
    by (auto simp: coreApplySnapshot_def create_def Let_def split: if_splits)
  from Cons.IH [OF rec [unfolded r2]]
  have len: "length xs = length rest"
    and e2: "events w2 = events w1 @
            map (\<lambda>k. if truthy (lookupCurrent current (identifierOf env a (rest ! k)))
                         \<and> typeIs env (lookupCurrent current (identifierOf env a (rest ! k))) (rest ! k)
                      then ApplySnapshot (xs ! k) (rest ! k)
                      else Create (rest ! k) (xs ! k)) [0..<length rest]"
    and k2: "\<forall>k<length rest.
             truthy (lookupCurrent current (identifierOf env a (rest ! k)))
             \<and> typeIs env (lookupCurrent current (identifierOf env a (rest ! k))) (rest ! k)
             \<longrightarrow> xs ! k = lookupCurrent current (identifierOf env a (rest ! k))"
    and f2: "target w2 = target w1 \<and> intercepted w2 = intercepted w1 \<and> observed w2 = observed w1"
    by simp_all
  show ?case
  proof (intro conjI allI impI)
    show "length res = length (item # rest)"
      by (simp add: res len)
    show "events w' = events w @
            map (\<lambda>k. if truthy (lookupCurrent current (identifierOf env a ((item # rest) ! k)))
                         \<and> typeIs env (lookupCurrent current (identifierOf env a ((item # rest) ! k))) ((item # rest) ! k)
                      then ApplySnapshot (res ! k) ((item # rest) ! k)
                      else Create ((item # rest) ! k) (res ! k)) [0..<length (item # rest)]"
      unfolding w' e2 e1 res length_Cons upt_shift by (simp add: comp_def)
    fix k assume k: "k < length (item # rest)"
      and keep: "truthy (lookupCurrent current (identifierOf env a ((item # rest) ! k)))
             \<and> typeIs env (lookupCurrent current (identifierOf env a ((item # rest) ! k))) ((item # rest) ! k)"
    show "res ! k = lookupCurrent current (identifierOf env a ((item # rest) ! k))"
    proof (cases k)
      case 0
      with keep x show ?thesis by (simp add: res)
    next
      case (Suc j)
      with k keep k2 show ?thesis by (simp add: res)
    qed
  next
    show "target w' = target w" "intercepted w' = intercepted w" "observed w' = observed w"
      using f1 f2 by (simp_all add: w')
  qed
qed



lemma keyedEnv_identifiers:
  "identifierOf keyedEnv ''id'' (Ref 1) = ''1''" "identifierOf keyedEnv ''id'' (Ref 2) = ''2''"
  "identifierOf keyedEnv ''id'' (Ref 3) = ''2''" "identifierOf keyedEnv ''id'' (Ref 4) = ''3''"
  "identifierOf keyedEnv ''id'' (Ref 5) = ''7''" "identifierOf keyedEnv ''id'' (Ref 6) = ''7''"
  "identifierOf keyedEnv ''id'' (Ref (Suc 0)) = ''1''"
  by (simp_all add: identifierOf_def keyedEnv_def exampleProp_def exampleHeap_def toPropertyKey_def
      numToString_def natToString.simps digitChar_def)

lemma typedEnv_identifiers:
  "identifierOf typedEnv ''id'' (Ref (Suc 0)) = ''1''" "identifierOf typedEnv ''id'' (Ref 2) = ''2''"
  "identifierOf typedEnv ''id'' (Ref 3) = ''2''" "identifierOf typedEnv ''id'' (Ref 4) = ''3''"
  "identifierOf typedEnv ''id'' (Ref 7) = ''1''"
  by (simp_all add: identifierOf_def typedEnv_def keyedEnv_def exampleProp_def exampleHeap_def
      toPropertyKey_def numToString_def natToString.simps digitChar_def)

lemma typedEnv_accepts:
  "typeIs typedEnv c (Ref 3)" "typeIs typedEnv c (Ref 4)" "\<not> typeIs typedEnv c (Ref 7)"
  by (simp_all add: typedEnv_def exampleProp_def exampleHeap_def)

lemma reconcileArrayItems_example_run:
  "reconcileArrayItems typedEnv ''id'' [Ref 1, Ref 2] [Ref 3, Ref 4] (liveArray [Ref 1, Ref 2]) =
     (Inr [Ref 2, Ref 101],
      \<lparr>target = [Ref 1, Ref 2],
       events = [ApplySnapshot (Ref 2) (Ref 3), Create (Ref 4) (Ref 101)],
       intercepted = True, observed = True\<rparr>)"
  by (simp add: reconcileArrayItems_def readProp_def lookupCurrent_def objectPrototypeNames_def
      Let_def coreApplySnapshot_def create_def logEvent_def liveArray_def typedEnv_def keyedEnv_def
      exampleProp_def exampleHeap_def toPropertyKey_def numToString_def natToString.simps
      digitChar_def)

lemma reconcileArrayItems_mismatch_run:
  "reconcileArrayItems typedEnv ''id'' [Ref 1, Ref 2] [Ref 7] (liveArray [Ref 1, Ref 2]) =
     (Inr [Ref 100],
      \<lparr>target = [Ref 1, Ref 2], events = [Create (Ref 7) (Ref 100)],
       intercepted = True, observed = True\<rparr>)"
  by (simp add: reconcileArrayItems_def readProp_def lookupCurrent_def objectPrototypeNames_def
      Let_def coreApplySnapshot_def create_def logEvent_def liveArray_def typedEnv_def keyedEnv_def
      exampleProp_def exampleHeap_def toPropertyKey_def numToString_def natToString.simps
      digitChar_def)


text \<open>
  A child whose identifier is a name the lookup object inherits: the assertion fails on
  it alone, since the lookup finds the inherited property.
\<close>

lemma reconcileArrayItems_inherited_name:
  "identifierOf keyedEnv ''id'' (Ref 8) = ''constructor'' \<and>
   reconcileArrayItems keyedEnv ''id'' [Ref 8] [] (liveArray [Ref 8]) =
     (Inl (NotUnique ''constructor''), liveArray [Ref 8])"
  by (simp add: reconcileArrayItems_def readProp_def lookupCurrent_def objectPrototypeNames_def
      identifierOf_def Let_def keyedEnv_def exampleProp_def exampleHeap_def toPropertyKey_def)

text \<open>Two current children with the same identifier: the assertion fails.\<close>

lemma collectCurrent_error:
  "collectCurrent env a tgt current = Inl e \<Longrightarrow> \<forall>c\<in>set tgt. truthy c \<Longrightarrow> \<exists>k. e = NotUnique k"
proof (induction tgt arbitrary: current)
  case Nil
  then show ?case by simp
next
  case (Cons item rest)
  from Cons.prems(2) have "item \<noteq> Undefined" and "item \<noteq> Null" by auto
  then have rp: "readProp env item a = Inr (getProp env item a)"
    by (simp add: readProp_def)
  show ?case
  proof (cases "truthy (lookupCurrent current (toPropertyKey (getProp env item a)))")
    case True
    with Cons.prems(1) rp show ?thesis by (auto simp: Let_def)
  next
    case False
    with Cons.prems(1) rp
    have "collectCurrent env a rest (current(toPropertyKey (getProp env item a) \<mapsto> item)) = Inl e"
      by (simp add: Let_def)
    from Cons.IH [OF this] Cons.prems(2) show ?thesis by simp
  qed
qed

lemma reconcileArrayItems_existing_duplicates_fail:
  assumes dup: "\<not> distinct (map (identifierOf env a) tgt)" and nodes: "\<forall>c\<in>set tgt. truthy c"
  shows "\<exists>k. reconcileArrayItems env a tgt snapshot w = (Inl (NotUnique k), w)"
proof (cases "collectCurrent env a tgt Map.empty")
  case (Inl e)
  from collectCurrent_error [OF Inl nodes] obtain k where "e = NotUnique k" ..
  with Inl show ?thesis by (simp add: reconcileArrayItems_def)
next
  case (Inr current)
  from collectCurrent_empty(1) [OF Inr nodes] dup show ?thesis by simp
qed

lemma reconcileArrayItems_existing_duplicates_example:
  "reconcileArrayItems keyedEnv ''id'' [Ref 5, Ref 6] [] (liveArray [Ref 5, Ref 6]) =
     (Inl (NotUnique ''7''), liveArray [Ref 5, Ref 6])"
  by (simp add: reconcileArrayItems_def readProp_def lookupCurrent_def objectPrototypeNames_def
      Let_def keyedEnv_def exampleProp_def exampleHeap_def toPropertyKey_def numToString_def
      natToString.simps digitChar_def)

text \<open>
  Two snapshot entries with the same identifier are accepted, and the container then
  holds two children with that identifier; the next snapshot applied to it fails on
  them.
\<close>

lemmas run_defs = applySnapshot_def arrayReplace_def arraySplice_def
      interceptChange_def notifyChange_def willChange_def assertWritable_def
      reconcileUnkeyedArrayItems_def js_slice_def js_slice_from_def sliceBound_def
      prepareChild_def logEvent_def emitPatch_def spliceItemsIntoValues_def js_index_def
      emitAdds.simps emitRemoves.simps numToString_def natToString.simps digitChar_def
      maybeMST_def setParent_def reconcileArrayItems_def readProp_def lookupCurrent_def
      objectPrototypeNames_def toPropertyKey_def create_def coreApplySnapshot_def Let_def

lemma applySnapshot_duplicates_accepted:
  "applySnapshot sameIdEnv [Ref 5, Ref 6] (liveArray []) =
     (Inr (),
      \<lparr>target = [Ref 100, Ref 101],
       events = [Create (Ref 5) (Ref 100), Create (Ref 6) (Ref 101), AssertWritable,
                 PrepareChild ''0'' (Ref 100) False (Ref 100),
                 PrepareChild ''1'' (Ref 101) False (Ref 101),
                 EmitPatch \<lparr>op = ''add'', path = ''0'', val = Some (Ref 100)\<rparr>,
                 EmitPatch \<lparr>op = ''add'', path = ''1'', val = Some (Ref 101)\<rparr>],
       intercepted = True, observed = True\<rparr>)"
  by (simp add: run_defs sameIdEnv_def keyedEnv_def isRef_def liveArray_def)

lemma applySnapshot_duplicates_fail_later:
  "fst (applySnapshot sameIdEnv [] (snd (applySnapshot sameIdEnv [Ref 5, Ref 6] (liveArray [])))) =
     Inl (NotUnique ''7'')"
  unfolding applySnapshot_duplicates_accepted
  by (simp add: run_defs sameIdEnv_def keyedEnv_def isRef_def)

text \<open>
  C2. The code at the failing input: the two snapshot entries 5 and 6 have the same
  identifier, 7, and \<^verbatim>\<open>reconcileArrayItems\<close> returns two new children for them without
  any failure. Only two current children with the same identifier make it fail.
\<close>

theorem reconcileArrayItems_incoming_duplicates_pass:
  "identifierOf keyedEnv ''id'' (Ref 5) = identifierOf keyedEnv ''id'' (Ref 6) \<and>
   reconcileArrayItems keyedEnv ''id'' [] [Ref 5, Ref 6] (liveArray []) =
     (Inr [Ref 100, Ref 101],
      \<lparr>target = [], events = [Create (Ref 5) (Ref 100), Create (Ref 6) (Ref 101)],
       intercepted = True, observed = True\<rparr>)"
  by (simp add: keyedEnv_identifiers)
     (simp add: reconcileArrayItems_def readProp_def lookupCurrent_def objectPrototypeNames_def
      Let_def create_def logEvent_def liveArray_def keyedEnv_def exampleProp_def exampleHeap_def
      toPropertyKey_def numToString_def natToString.simps digitChar_def)

subsection \<open>The write path of the container\<close>

lemma emitPatch_frame [simp]:
  "target (emitPatch p w) = target w"
  "intercepted (emitPatch p w) = intercepted w"
  "observed (emitPatch p w) = observed w"
  by (simp_all add: emitPatch_def)

lemma didChange_frame [simp]:
  "target (didChange env c w) = target w"
  "intercepted (didChange env c w) = intercepted w"
  "observed (didChange env c w) = observed w"
  by (cases c; simp add: emitPatch_def)+

lemma reconcileUnkeyedArrayItems_events_from:
  "events (snd (reconcileUnkeyedArrayItems env tgt i added r w)) =
     events w @ newEvents w (snd (reconcileUnkeyedArrayItems env tgt i added r w))"
  unfolding reconcileUnkeyedArrayItems_newEvents
  by (rule reconcileUnkeyedArrayItems_events(1) [OF prod.collapse [symmetric]])

lemma willChange_splice_emits_nothing:
  "emitted (newEvents w (snd (reconcileUnkeyedArrayItems env tgt i added r w))) = []"
  "reconciledCalls (newEvents w (snd (reconcileUnkeyedArrayItems env tgt i added r w))) = []"
  by (simp_all add: reconcileUnkeyedArrayItems_newEvents)

text \<open>
  A splice within the array, on a writable node with both hooks registered: the hook
  reconciles, the items it returns are committed, and the patches are emitted.
\<close>

lemma arraySplice_hooked:
  fixes items :: "jsval list"
  assumes hooks: "intercepted w" "observed w" and wr: "writable env w"
      and range: "0 \<le> i" "i \<le> int (length (target w))" "0 \<le> r" "r \<le> int (length (target w)) - i"
  defines "R \<equiv> reconcileUnkeyedArrayItems env (target w) i items r (logEvent AssertWritable w)"
  shows "fst (arraySplice env i r items w) = Inr ()"
    and "target (snd (arraySplice env i r items w)) = spliceItemsIntoValues (target w) i r (fst R)"
    and "events (snd (arraySplice env i r items w)) =
           events w @ AssertWritable # newEvents (logEvent AssertWritable w) (snd R)
           @ map EmitPatch (removePatches i r @ addPatches env i (fst R) (int (length (fst R))))"
    and "intercepted (snd (arraySplice env i r items w))"
    and "observed (snd (arraySplice env i r items w))"
proof -
  have norm: "(if i > int (length (target w)) then int (length (target w))
               else if i < 0 then max 0 (int (length (target w)) + i) else i) = i"
    "max 0 (min r (int (length (target w)) - i)) = r"
    using range by simp_all
  have ic: "interceptChange env (WillSplice i items r) w = (Inr (Some (WillSplice i (fst R) r)), snd R)"
    using hooks wr by (simp add: interceptChange_def willChange_splice R_def)
  have obs: "observed (snd R)" "intercepted (snd R)" "target (snd R) = target w"
    using hooks by (simp_all add: R_def reconcileUnkeyedArrayItems_target)
  have run: "arraySplice env i r items w =
      (Inr (), didChange env (DidSplice i (fst R) (int (length (fst R))) r)
                 ((snd R)\<lparr>target := spliceItemsIntoValues (target w) i r (fst R)\<rparr>))"
    unfolding arraySplice_def Let_def norm ic using obs
    by (simp add: notifyChange_def)
  show "fst (arraySplice env i r items w) = Inr ()"
    by (simp add: run)
  show "target (snd (arraySplice env i r items w)) = spliceItemsIntoValues (target w) i r (fst R)"
    by (simp add: run)
  have "events (snd (arraySplice env i r items w)) =
          events (snd R) @ map EmitPatch (removePatches i r @ addPatches env i (fst R) (int (length (fst R))))"
    by (simp add: run didChange_splice_events del: didChange.simps)
  also have "events (snd R) = (events w @ [AssertWritable]) @ newEvents (logEvent AssertWritable w) (snd R)"
    unfolding R_def by (subst reconcileUnkeyedArrayItems_events_from) simp
  finally show "events (snd (arraySplice env i r items w)) =
           events w @ AssertWritable # newEvents (logEvent AssertWritable w) (snd R)
           @ map EmitPatch (removePatches i r @ addPatches env i (fst R) (int (length (fst R))))"
    by simp
  show "intercepted (snd (arraySplice env i r items w))" "observed (snd (arraySplice env i r items w))"
    using obs by (simp_all add: run)
qed

lemma arraySplice_not_writable:
  "intercepted w \<Longrightarrow> \<not> writable env w \<Longrightarrow>
     arraySplice env index deleteCount items w = (Inl NotWritable, logEvent AssertWritable w)"
  by (simp add: arraySplice_def Let_def interceptChange_def willChange_not_writable)

lemma addPatches_all:
  "addPatches env i xs (int (length xs)) =
     map (\<lambda>k. \<lparr>op = ''add'', path = numToString (i + int k), val = Some (valueToSnapshot env (xs ! k))\<rparr>)
         [0..<length xs]"
  unfolding addPatches_def by (simp add: js_index_def)

lemma removePatches_none [simp]: "removePatches i 0 = []"
  by (simp add: removePatches_def)


subsection \<open>Hydration\<close>

lemma hydrate_replace:
  assumes empty: "target w = []" and hooks: "intercepted w" "observed w"
      and run: "arrayReplace env items w = (Inr (), w')"
  shows "length (target w') = length items"
    and "emitted (events w') = emitted (events w) @
           map (\<lambda>k. \<lparr>op = ''add'', path = numToString (int k),
                     val = Some (valueToSnapshot env (target w' ! k))\<rparr>) [0..<length items]"
proof -
  have wr: "writable env w"
  proof (rule ccontr)
    assume "\<not> writable env w"
    with hooks run show False
      by (simp add: arrayReplace_def arraySplice_not_writable)
  qed
  let ?R = "reconcileUnkeyedArrayItems env (target w) 0 items 0 (logEvent AssertWritable w)"
  have range: "(0::int) \<le> 0" "0 \<le> int (length (target w))" "0 \<le> int (length (target w)) - 0"
    by (simp_all add: empty)
  note sp = arraySplice_hooked [OF hooks wr range(1,2,1,3), of items]
  have w': "w' = snd (arraySplice env 0 0 items w)"
    using run by (simp add: arrayReplace_def empty)
  have tgt: "target w' = fst ?R"
    unfolding w' sp(2) by (simp add: spliceItemsIntoValues_def empty)
  have len: "length (fst ?R) = length items"
    by (rule reconcileUnkeyedArrayItems_length)
  show "length (target w') = length items"
    by (simp add: tgt len)
  have "emitted (events w') = emitted (events w) @ addPatches env 0 (fst ?R) (int (length (fst ?R)))"
    unfolding w' sp(3) by (simp add: willChange_splice_emits_nothing)
  also have "addPatches env 0 (fst ?R) (int (length (fst ?R))) =
      map (\<lambda>k. \<lparr>op = ''add'', path = numToString (int k),
                val = Some (valueToSnapshot env (fst ?R ! k))\<rparr>) [0..<length (fst ?R)]"
    by (simp add: addPatches_all)
  finally show "emitted (events w') = emitted (events w) @
           map (\<lambda>k. \<lparr>op = ''add'', path = numToString (int k),
                     val = Some (valueToSnapshot env (target w' ! k))\<rparr>) [0..<length items]"
    unfolding tgt len .
qed

lemma reconcileArrayItems_frame:
  assumes "reconcileArrayItems env a tgt snapshot w = (Inr items, w1)"
  shows "length items = length snapshot" and "emitted (events w1) = emitted (events w)"
    and "target w1 = target w" and "intercepted w1 = intercepted w" and "observed w1 = observed w"
proof -
  from assms obtain current where rec: "reconcileItems env a current snapshot w = (Inr items, w1)"
    by (auto simp: reconcileArrayItems_def split: sum.splits)
  note r = reconcileItems_events [OF rec]
  from r show "length items = length snapshot" "target w1 = target w"
    "intercepted w1 = intercepted w" "observed w1 = observed w"
    by simp_all
  have "emitted (map (\<lambda>k. if P k then ApplySnapshot (f k) (g k) else Create (g k) (f k)) ks) = []" for P f g ks
    by (induction ks) (simp_all add: emitted_def)
  with r show "emitted (events w1) = emitted (events w)"
    by simp
qed

text \<open>
  C3, amended. \<^verbatim>\<open>finalizeNewInstance\<close> registers both hooks before it applies the
  snapshot, so hydration is an intercepted and observed edit like any other: when it
  succeeds on a fresh instance, the container holds one element per snapshot entry,
  and the patches emitted are one add patch per element, with the paths 0, ...,
  \<open>n - 1\<close> in this order and the snapshot of the element as value. Only the empty
  snapshot emits none.
\<close>

theorem finalizeNewInstance_emits_add_patches:
  assumes run: "finalizeNewInstance env snapshot createNewInstance = (Inr (), w')"
  shows "length (target w') = length snapshot
       \<and> emitted (events w') =
           map (\<lambda>k. \<lparr>op = ''add'', path = numToString (int k),
                     val = Some (valueToSnapshot env (target w' ! k))\<rparr>) [0..<length snapshot]"
proof -
  let ?w = "createNewInstance\<lparr>intercepted := True, observed := True\<rparr>"
  have w: "target ?w = []" "intercepted ?w" "observed ?w" "events ?w = []"
    by (simp_all add: createNewInstance_def)
  from run have app: "applySnapshot env snapshot ?w = (Inr (), w')"
    by (simp add: finalizeNewInstance_def nodeApplySnapshot_def Let_def)
  show ?thesis
  proof (cases "\<exists>a. identifierAttribute env = Some a \<and> a \<noteq> []")
    case False
    with app have "arrayReplace env snapshot ?w = (Inr (), w')"
      by (auto simp: applySnapshot_def split: option.splits if_splits)
    from hydrate_replace [OF w(1-3) this] show ?thesis
      by (simp add: w(4))
  next
    case True
    then obtain a where a: "identifierAttribute env = Some a" "a \<noteq> []" by blast
    obtain r w1 where rec: "reconcileArrayItems env a (target ?w) snapshot ?w = (r, w1)"
      by (cases "reconcileArrayItems env a (target ?w) snapshot ?w")
    from app a rec obtain items where r: "r = Inr items" and rep: "arrayReplace env items w1 = (Inr (), w')"
      by (cases r) (auto simp: applySnapshot_def)
    note f = reconcileArrayItems_frame [OF rec [unfolded r]]
    from f w have w1: "target w1 = []" "intercepted w1" "observed w1" "emitted (events w1) = []"
      by simp_all
    from hydrate_replace [OF w1(1-3) rep] show ?thesis
      by (simp add: w1(4) f(1))
  qed
qed


text \<open>Hydrating a fresh collection of numbers from \<^verbatim>\<open>[7]\<close>.\<close>

lemma finalizeNewInstance_example_run:
  "finalizeNewInstance scalarEnv [Num 7] createNewInstance =
     (Inr (),
      \<lparr>target = [Num 7],
       events = [AssertWritable, PrepareChild ''0'' (Num 7) False (Num 7),
                 EmitPatch \<lparr>op = ''add'', path = ''0'', val = Some (Num 7)\<rparr>],
       intercepted = True, observed = True\<rparr>)"
  by (simp add: finalizeNewInstance_def nodeApplySnapshot_def applySnapshot_def arrayReplace_def
      arraySplice_def
      interceptChange_def notifyChange_def willChange_def assertWritable_def
      reconcileUnkeyedArrayItems_def js_slice_def js_slice_from_def sliceBound_def
      prepareChild_def logEvent_def emitPatch_def spliceItemsIntoValues_def js_index_def
      emitAdds.simps emitRemoves.simps numToString_def natToString.simps digitChar_def
      createNewInstance_def scalarEnv_def Let_def)

text \<open>C3 as stated fails there: the hydration emits an add patch.\<close>

theorem finalizeNewInstance_emits_counterexample:
  "fst (finalizeNewInstance scalarEnv [Num 7] createNewInstance) = Inr () \<and>
   emitted (events (snd (finalizeNewInstance scalarEnv [Num 7] createNewInstance))) =
     [\<lparr>op = ''add'', path = ''0'', val = Some (Num 7)\<rparr>] \<and>
   emitted (events (snd (finalizeNewInstance scalarEnv [Num 7] createNewInstance))) \<noteq> []"
  by (simp add: finalizeNewInstance_example_run)

text \<open>The amended statement at that input.\<close>

theorem finalizeNewInstance_emits_add_patches_example:
  "fst (finalizeNewInstance scalarEnv [Num 7] createNewInstance) = Inr () \<and>
   length (target (snd (finalizeNewInstance scalarEnv [Num 7] createNewInstance))) = 1 \<and>
   emitted (events (snd (finalizeNewInstance scalarEnv [Num 7] createNewInstance))) =
     [\<lparr>op = ''add'', path = ''0'',
       val = Some (valueToSnapshot scalarEnv
                (target (snd (finalizeNewInstance scalarEnv [Num 7] createNewInstance)) ! 0))\<rparr>]"
proof -
  let ?run = "finalizeNewInstance scalarEnv [Num 7] createNewInstance"
  have ok: "fst ?run = Inr ()"
    by (simp add: finalizeNewInstance_example_run)
  then have run: "?run = (Inr (), snd ?run)"
    by (metis prod.collapse)
  from finalizeNewInstance_emits_add_patches [OF run] ok show ?thesis
    by (simp add: numToString_digits)
qed


subsection \<open>applyPatchLocally on a live container\<close>

text \<open>
  A write of a slot within the array with a value that is not the one it holds, on a
  writable node with both hooks registered.
\<close>

lemma arraySet_hooked:
  assumes hooks: "intercepted w" "observed w" and wr: "writable env w"
      and range: "0 \<le> i" "i < int (length (target w))" and new: "v \<noteq> target w ! nat i"
  defines "x \<equiv> prepareChildResult env (logEvent AssertWritable w) (numToString i) v True"
  shows "fst (arraySet env i v w) = Inr ()"
    and "target (snd (arraySet env i v w)) = (target w)[nat i := x]"
    and "events (snd (arraySet env i v w)) =
           events w @ [AssertWritable, PrepareChild (numToString i) v True x,
                       EmitPatch \<lparr>op = ''replace'', path = numToString i,
                                  val = Some (valueToSnapshot env x)\<rparr>]"
proof -
  have old: "js_index (target w) i = target w ! nat i"
    using range by (simp add: js_index_def)
  have ic: "interceptChange env (WillUpdate i v) w =
      (Inr (Some (WillUpdate i x)),
       logEvent (PrepareChild (numToString i) v True x) (logEvent AssertWritable w))"
    using hooks wr new
    by (simp add: interceptChange_def willChange_def assertWritable_def old prepareChild_def Let_def x_def)
  have run: "arraySet env i v w =
      (Inr (), didChange env (DidUpdate i x)
         ((logEvent (PrepareChild (numToString i) v True x) (logEvent AssertWritable w))
            \<lparr>target := (target w)[nat i := x]\<rparr>))"
    unfolding arraySet_def Let_def ic using range hooks
    by (simp add: notifyChange_def)
  show "fst (arraySet env i v w) = Inr ()"
    by (simp add: run)
  show "target (snd (arraySet env i v w)) = (target w)[nat i := x]"
    by (simp add: run)
  show "events (snd (arraySet env i v w)) =
           events w @ [AssertWritable, PrepareChild (numToString i) v True x,
                       EmitPatch \<lparr>op = ''replace'', path = numToString i,
                                  val = Some (valueToSnapshot env x)\<rparr>]"
    by (simp add: run emitPatch_def)
qed

lemma reconcile_insert_one:
  "prepared (newEvents w (snd (reconcileUnkeyedArrayItems env tgt i [v] 0 w))) =
     [(numToString i, v, False)]"
  "detached (newEvents w (snd (reconcileUnkeyedArrayItems env tgt i [v] 0 w))) = []"
  "preparedResults (newEvents w (snd (reconcileUnkeyedArrayItems env tgt i [v] 0 w))) =
     fst (reconcileUnkeyedArrayItems env tgt i [v] 0 w)"
proof -
  have s1: "js_slice [v] 0 0 = []" and s2: "js_slice_from [v] 0 = [v]"
    by (simp_all add: js_slice_def js_slice_from_def sliceBound_def)
  show "prepared (newEvents w (snd (reconcileUnkeyedArrayItems env tgt i [v] 0 w))) =
     [(numToString i, v, False)]"
    and "detached (newEvents w (snd (reconcileUnkeyedArrayItems env tgt i [v] 0 w))) = []"
    by (simp_all add: reconcileUnkeyedArrayItems_newEvents s1 s2)
  have "length (fst (reconcileUnkeyedArrayItems env tgt i [v] 0 w)) = 1"
    by (simp add: reconcileUnkeyedArrayItems_length)
  then have "fst (reconcileUnkeyedArrayItems env tgt i [v] 0 w) =
               [fst (reconcileUnkeyedArrayItems env tgt i [v] 0 w) ! 0]"
    by (cases "fst (reconcileUnkeyedArrayItems env tgt i [v] 0 w)") simp_all
  then show "preparedResults (newEvents w (snd (reconcileUnkeyedArrayItems env tgt i [v] 0 w))) =
     fst (reconcileUnkeyedArrayItems env tgt i [v] 0 w)"
    by (simp add: reconcileUnkeyedArrayItems_newEvents s1 s2)
qed

lemma reconcile_remove_one:
  assumes "0 \<le> i" and "i < int (length tgt)"
  shows "prepared (newEvents w (snd (reconcileUnkeyedArrayItems env tgt i [] 1 w))) = []"
    and "detached (newEvents w (snd (reconcileUnkeyedArrayItems env tgt i [] 1 w))) =
           filter (isMST env) [tgt ! nat i]"
    and "fst (reconcileUnkeyedArrayItems env tgt i [] 1 w) = []"
proof -
  have "js_slice tgt i (i + 1) = take (nat (i + 1) - nat i) (drop (nat i) tgt)"
    using assms by (intro js_slice_take_drop) simp_all
  also have "nat (i + 1) - nat i = 1"
    using assms by simp
  also have "take 1 (drop (nat i) tgt) = [tgt ! nat i]"
    using assms by (simp add: take_Suc_conv_app_nth [of 0, simplified] hd_drop_conv_nth take_Suc)
  finally have s1: "js_slice tgt i (i + 1) = [tgt ! nat i]" .
  have s2: "js_slice [] 0 0 = ([] :: jsval list)" "js_slice_from [] 0 = ([] :: jsval list)"
    by (simp_all add: js_slice_def js_slice_from_def)
  show "prepared (newEvents w (snd (reconcileUnkeyedArrayItems env tgt i [] 1 w))) = []"
    and "detached (newEvents w (snd (reconcileUnkeyedArrayItems env tgt i [] 1 w))) =
           filter (isMST env) [tgt ! nat i]"
    by (simp_all add: reconcileUnkeyedArrayItems_newEvents s1 s2)
  have "length (fst (reconcileUnkeyedArrayItems env tgt i [] 1 w)) = 0"
    by (simp add: reconcileUnkeyedArrayItems_length)
  then show "fst (reconcileUnkeyedArrayItems env tgt i [] 1 w) = []"
    by simp
qed




text \<open>An add patch at path 0 on a live collection of numbers.\<close>

lemma parseInt_0: "parseInt ''0'' = Some 0"
  by (simp add: parseInt_def parseSign_def parseRadix_def isWhiteSpace_def digitValue_def)

lemma applyPatchLocally_example_run:
  "applyPatchLocally scalarEnv ''0'' \<lparr>op = ''add'', path = ''/0'', val = Some (Num 5)\<rparr>
     (liveArray [Num 1]) =
     (Inr (),
      \<lparr>target = [Num 5, Num 1],
       events = [AssertWritable, PrepareChild ''0'' (Num 5) False (Num 5),
                 EmitPatch \<lparr>op = ''add'', path = ''0'', val = Some (Num 5)\<rparr>],
       intercepted = True, observed = True\<rparr>)"
  by (simp add: applyPatchLocally_def targetSplice_def parseInt_0 patchValue_def arraySplice_def
      interceptChange_def notifyChange_def willChange_def assertWritable_def
      reconcileUnkeyedArrayItems_def js_slice_def js_slice_from_def sliceBound_def
      prepareChild_def logEvent_def emitPatch_def spliceItemsIntoValues_def js_index_def
      emitAdds.simps emitRemoves.simps numToString_def natToString.simps digitChar_def
      maybeMST_def liveArray_def scalarEnv_def Let_def)



subsection \<open>A splice from end to end\<close>

text \<open>
  The patch-ordering example of the spec through the whole write path: removing 2 and
  inserting 3 at index 1 of \<^verbatim>\<open>[a, b, c, d]\<close>.
\<close>

lemma arraySplice_spec_example:
  "arraySplice scalarEnv 1 2 [Str ''x'', Str ''y'', Str ''z'']
     (liveArray [Str ''a'', Str ''b'', Str ''c'', Str ''d'']) =
     (Inr (),
      \<lparr>target = [Str ''a'', Str ''x'', Str ''y'', Str ''z'', Str ''d''],
       events = [AssertWritable,
                 PrepareChild ''1'' (Str ''x'') True (Str ''x''),
                 PrepareChild ''2'' (Str ''y'') True (Str ''y''),
                 PrepareChild ''3'' (Str ''z'') False (Str ''z''),
                 EmitPatch \<lparr>op = ''remove'', path = ''2'', val = None\<rparr>,
                 EmitPatch \<lparr>op = ''remove'', path = ''1'', val = None\<rparr>,
                 EmitPatch \<lparr>op = ''add'', path = ''1'', val = Some (Str ''x'')\<rparr>,
                 EmitPatch \<lparr>op = ''add'', path = ''2'', val = Some (Str ''y'')\<rparr>,
                 EmitPatch \<lparr>op = ''add'', path = ''3'', val = Some (Str ''z'')\<rparr>],
       intercepted = True, observed = True\<rparr>)"
  by (simp add: run_defs scalarEnv_def liveArray_def)

end
